theory Spec2Isabelle
  imports Main
begin

section \<open>Python values, strings and exceptions\<close>

text \<open>
  The script runs under CPython 3 on Windows (it drives Excel through COM). A Python
  \<open>str\<close> is a sequence of Unicode code points, so text is a list of code points;
  \<open>U\<close> turns an ASCII literal into such a list.
\<close>

type_synonym ustr = "nat list"

abbreviation U :: "string \<Rightarrow> ustr" where
  "U s \<equiv> map of_char s"

text \<open>
  The values the script handles: \<open>None\<close>, strings, JSON arrays and objects, and any
  other object (a bool, a number, a COM value). Of such an object the script observes only
  what \<open>str()\<close> returns on it (\<open>None\<close> when \<open>str()\<close> raises) and its truth value,
  so \<open>PObj\<close> carries exactly these two.
\<close>

datatype pyval =
    PNone
  | PStr ustr
  | PList "pyval list"
  | PDict "(ustr \<times> pyval) list"
  | PObj "ustr option" bool

text \<open>
  Exceptions: \<open>Exception msg\<close> is what the script raises itself
  (\<^verbatim>\<open>raise Exception(msg)\<close>); \<open>AttributeError\<close> is raised by \<^verbatim>\<open>x.get(...)\<close> or
  \<^verbatim>\<open>x.lower()\<close> on an object that has no such method; \<open>TypeError\<close> by iterating an
  object that is not iterable; \<open>RuntimeErr\<close> stands for any other exception coming out of
  the runtime, COM or the network stack.
\<close>

datatype exn = Exception ustr | AttributeError | TypeError | RuntimeErr ustr

text \<open>
  Three builtins belong to the Python runtime, not to the script: the \<open>repr\<close> of a
  container (used by \<open>str()\<close> on a list or dict), the Unicode lower-case mapping and
  \<^verbatim>\<open>json.loads\<close>. They are parameters. On text that is ASCII throughout,
  \<open>str.lower\<close> is fixed by the language and is written out.
\<close>

record pyrt =
  repr_container :: "pyval \<Rightarrow> ustr option"
  lower_table :: "ustr \<Rightarrow> ustr"
  json_loads :: "ustr \<Rightarrow> exn + pyval"

definition truthy :: "pyval \<Rightarrow> bool" where
  "truthy v = (case v of
       PNone \<Rightarrow> False
     | PStr s \<Rightarrow> s \<noteq> []
     | PList xs \<Rightarrow> xs \<noteq> []
     | PDict kvs \<Rightarrow> kvs \<noteq> []
     | PObj r t \<Rightarrow> t)"

definition py_str :: "pyrt \<Rightarrow> pyval \<Rightarrow> ustr option" where
  "py_str rt v = (case v of
       PNone \<Rightarrow> Some (U ''None'')
     | PStr s \<Rightarrow> Some s
     | PObj r t \<Rightarrow> r
     | _ \<Rightarrow> repr_container rt v)"

text \<open>Sequencing of calls that may raise.\<close>

definition ebind :: "exn + 'a \<Rightarrow> ('a \<Rightarrow> exn + 'b) \<Rightarrow> exn + 'b" where
  "ebind m f = (case m of Inl e \<Rightarrow> Inl e | Inr x \<Rightarrow> f x)"

text \<open>\<^verbatim>\<open>v.get(key, default)\<close>: a dict lookup, \<open>AttributeError\<close> on anything else.\<close>

definition py_get :: "pyval \<Rightarrow> ustr \<Rightarrow> pyval \<Rightarrow> exn + pyval" where
  "py_get v key dflt = (case v of
       PDict kvs \<Rightarrow> Inr (case map_of kvs key of Some x \<Rightarrow> x | None \<Rightarrow> dflt)
     | _ \<Rightarrow> Inl AttributeError)"

text \<open>
  \<open>is_space\<close> is CPython's \<^verbatim>\<open>Py_UNICODE_ISSPACE\<close>, which both \<^verbatim>\<open>str.strip()\<close> and the
  regular expression class \<^verbatim>\<open>\s\<close> on \<open>str\<close> patterns use.
\<close>

definition is_space :: "nat \<Rightarrow> bool" where
  "is_space c \<longleftrightarrow>
     (9 \<le> c \<and> c \<le> 13) \<or> (28 \<le> c \<and> c \<le> 32) \<or> c = 133 \<or> c = 160 \<or> c = 5760 \<or>
     (8192 \<le> c \<and> c \<le> 8202) \<or> c = 8232 \<or> c = 8233 \<or> c = 8239 \<or> c = 8287 \<or> c = 12288"

definition py_strip :: "ustr \<Rightarrow> ustr" where
  "py_strip s = rev (dropWhile is_space (rev (dropWhile is_space s)))"

text \<open>\<^verbatim>\<open>text.replace(old, new)\<close> for a one-character \<open>old\<close>.\<close>

definition py_replace :: "nat \<Rightarrow> ustr \<Rightarrow> ustr \<Rightarrow> ustr" where
  "py_replace old new s = concat (map (\<lambda>c. if c = old then new else [c]) s)"

text \<open>\<^verbatim>\<open>re.sub(r"\s+", " ", text)\<close>: every maximal run of whitespace becomes one space.\<close>

function re_sub_ws :: "ustr \<Rightarrow> ustr" where
  "re_sub_ws [] = []"
| "re_sub_ws (c # cs) =
     (if is_space c then 32 # re_sub_ws (dropWhile is_space cs) else c # re_sub_ws cs)"
  by pat_completeness auto
termination
  by (relation "measure length") (auto simp: le_imp_less_Suc length_dropWhile_le)

definition is_ascii :: "ustr \<Rightarrow> bool" where
  "is_ascii s = list_all (\<lambda>c. c < 128) s"

definition ascii_lower :: "nat \<Rightarrow> nat" where
  "ascii_lower c = (if 65 \<le> c \<and> c \<le> 90 then c + 32 else c)"

definition py_lower :: "pyrt \<Rightarrow> ustr \<Rightarrow> ustr" where
  "py_lower rt s = (if is_ascii s then map ascii_lower s else lower_table rt s)"

text \<open>
  A runtime for closed examples: it lower-cases the ASCII letters only, has no \<open>repr\<close>
  for containers and parses no JSON text (an example that needs a parsed response sets
  \<open>json_loads\<close>). On ASCII text it agrees with every Python runtime.
\<close>

definition ascii_rt :: pyrt where
  "ascii_rt = \<lparr> repr_container = (\<lambda>v. None), lower_table = map ascii_lower,
       json_loads = (\<lambda>t. Inl (RuntimeErr (U ''JSONDecodeError''))) \<rparr>"

section \<open>Key normalizer\<close>

text \<open>
  The chain of \<^verbatim>\<open>replace\<close> calls of \<^verbatim>\<open>ExcelReader._normalize_name\<close>, in source order:
  U+00A0 to a space; U+200E, U+200F, U+202A, U+202B, U+202C deleted; U+2013, U+2014 and
  U+2212 to a hyphen.
\<close>

definition replace_marks :: "ustr \<Rightarrow> ustr" where
  "replace_marks text =
     py_replace 8722 (U ''-'') (py_replace 8212 (U ''-'') (py_replace 8211 (U ''-'')
       (py_replace 8236 [] (py_replace 8235 [] (py_replace 8234 []
         (py_replace 8207 [] (py_replace 8206 [] (py_replace 160 (U '' '') text))))))))"

text \<open>
  \<^verbatim>\<open>ExcelReader._normalize_name\<close>. The two \<^verbatim>\<open>try/except: pass\<close> blocks around the
  replacements and the substitution guard calls that cannot raise on a \<open>str\<close>.
\<close>

definition normalize_name :: "pyrt \<Rightarrow> pyval \<Rightarrow> ustr" where
  "normalize_name rt v =
     (if v = PNone then []
      else case py_str rt v of
          None \<Rightarrow> []
        | Some text \<Rightarrow> py_lower rt (py_strip (re_sub_ws (replace_marks text))))"

text \<open>\<^verbatim>\<open>str.rfind\<close> of one character: the last index, or \<open>-1\<close>.\<close>

definition rfind :: "nat \<Rightarrow> ustr \<Rightarrow> int" where
  "rfind c s =
     (if c \<in> set s then int (length s) - 1 - int (length (takeWhile (\<lambda>x. x \<noteq> c) (rev s)))
      else - 1)"

text \<open>
  \<^verbatim>\<open>os.path.splitext\<close> on Windows (\<^verbatim>\<open>ntpath\<close>, that is \<^verbatim>\<open>genericpath._splitext\<close> with
  separators \<^verbatim>\<open>\\<close> and \<^verbatim>\<open>/\<close>): the extension starts at the last dot, provided the
  dot lies after the last separator and some character between them is not a dot.
\<close>

definition splitext :: "ustr \<Rightarrow> ustr \<times> ustr" where
  "splitext p =
     (let sepIndex = max (rfind 92 p) (rfind 47 p);
          dotIndex = rfind 46 p
      in if dotIndex > sepIndex \<and>
            list_ex (\<lambda>c. c \<noteq> 46) (take (nat (dotIndex - (sepIndex + 1))) (drop (nat (sepIndex + 1)) p))
         then (take (nat dotIndex) p, drop (nat dotIndex) p)
         else (p, []))"

text \<open>\<^verbatim>\<open>ExcelReader._normalize_base\<close>.\<close>

definition normalize_base :: "pyrt \<Rightarrow> pyval \<Rightarrow> ustr" where
  "normalize_base rt v =
     (let name = normalize_name rt v
      in if name = [] then []
         else let base = fst (splitext name) in if base \<noteq> [] then base else name)"

section \<open>Auxiliary notions for the proofs about the key normalizer\<close>





section \<open>Spreadsheet row index\<close>

text \<open>\<^verbatim>\<open>class ExcelRow\<close>: both fields are strings built by \<^verbatim>\<open>str(...).strip()\<close>.\<close>

record excel_row =
  FileName :: ustr
  Description :: ustr

text \<open>
  The index is a Python \<open>dict\<close> from key to row. A \<open>dict\<close> keeps insertion order, which
  the script shows when it logs a sample of the keys, so the index is an association list;
  \<open>dict_get\<close> is \<^verbatim>\<open>d.get(key)\<close> and \<open>dict_set\<close> is \<^verbatim>\<open>d[key] = value\<close>.
\<close>

type_synonym 'v pydict = "(ustr \<times> 'v) list"

definition dict_get :: "'v pydict \<Rightarrow> ustr \<Rightarrow> 'v option" where
  "dict_get d key = map_of d key"

fun dict_set :: "'v pydict \<Rightarrow> ustr \<Rightarrow> 'v \<Rightarrow> 'v pydict" where
  "dict_set [] key v = [(key, v)]"
| "dict_set ((k, x) # d) key v = (if k = key then (k, v) # d else (k, x) # dict_set d key v)"

text \<open>\<^verbatim>\<open>ExcelReader._add_result\<close>: \<^verbatim>\<open>if key and key not in result: result[key] = row\<close>.\<close>

definition add_result :: "excel_row pydict \<Rightarrow> ustr \<Rightarrow> excel_row \<Rightarrow> excel_row pydict" where
  "add_result result key row =
     (if key \<noteq> [] \<and> dict_get result key = None then dict_set result key row else result)"

text \<open>
  The two registrations of one accepted data row, lines 408 to 410 of the script:
  first under \<open>normalize_name\<close>, then under \<open>normalize_base\<close>.
\<close>

definition register_row :: "pyrt \<Rightarrow> excel_row pydict \<Rightarrow> excel_row \<Rightarrow> excel_row pydict" where
  "register_row rt result row_obj =
     add_result (add_result result (normalize_name rt (PStr (FileName row_obj))) row_obj)
       (normalize_base rt (PStr (FileName row_obj))) row_obj"

section \<open>Workbooks as the script sees them through COM\<close>

text \<open>
  \<^verbatim>\<open>UsedRange.Value2\<close> is a two-dimensional .NET array with its own lower and upper
  bounds, or a single value when the range is one cell; \<^verbatim>\<open>coerce_to_2d\<close> wraps a single
  value (also \<open>None\<close>, for an empty sheet) in a 1 by 1 array with bounds 0.
\<close>

datatype array2d =
  Array2D (lower0: int) (upper0: int) (lower1: int) (upper1: int) (cells: "int \<Rightarrow> int \<Rightarrow> pyval")

datatype range_value = RArray array2d | RScalar pyval

definition coerce_to_2d :: "range_value \<Rightarrow> array2d" where
  "coerce_to_2d values = (case values of
       RArray a \<Rightarrow> a
     | RScalar v \<Rightarrow> Array2D 0 0 0 0 (\<lambda>r c. v))"

text \<open>\<^verbatim>\<open>vals[r, c]\<close>: \<open>None\<close> stands for the \<^verbatim>\<open>IndexOutOfRangeException\<close>.\<close>

definition arr_get :: "array2d \<Rightarrow> int \<Rightarrow> int \<Rightarrow> pyval option" where
  "arr_get a r c =
     (if lower0 a \<le> r \<and> r \<le> upper0 a \<and> lower1 a \<le> c \<and> c \<le> upper1 a
      then Some (cells a r c) else None)"

text \<open>
  A worksheet: its \<^verbatim>\<open>UsedRange.Value2\<close>, the formatted text of its cells
  (\<^verbatim>\<open>safe_get_sheet_text\<close>, which returns \<open>None\<close> when the COM call raises) and its
  name (\<open>None\<close> when reading it raises). A workbook: its sheet count (\<open>None\<close> when
  \<^verbatim>\<open>Count\<close> raises) and its sheets by 1-based index, \<open>None\<close> for a sheet whose
  \<^verbatim>\<open>Item\<close>, \<^verbatim>\<open>UsedRange\<close> or \<^verbatim>\<open>Value2\<close> raises.
\<close>

record sheet =
  value2 :: range_value
  safe_get_sheet_text :: "int \<Rightarrow> int \<Rightarrow> pyval"
  sheet_name :: pyval

record workbook =
  sheet_count :: "int option"
  sheet_item :: "int \<Rightarrow> sheet option"


section \<open>Sheet selector\<close>

text \<open>\<^verbatim>\<open>v is not None and str(v).strip()\<close>; \<open>str()\<close> may raise.\<close>

definition str_error :: exn where
  "str_error = RuntimeErr (U ''str'')"

definition nonblank :: "pyrt \<Rightarrow> pyval \<Rightarrow> exn + bool" where
  "nonblank rt v =
     (if v = PNone then Inr False
      else case py_str rt v of
          None \<Rightarrow> Inl str_error
        | Some s \<Rightarrow> Inr (py_strip s \<noteq> []))"

text \<open>
  A cell for the counting loop: the value, \<open>None\<close> when the read raises, and the
  formatted text when the value is \<open>None\<close>.
\<close>

definition count_cell :: "sheet \<Rightarrow> array2d \<Rightarrow> int \<Rightarrow> int \<Rightarrow> pyval" where
  "count_cell ws vals r c =
     (let v = (case arr_get vals r c of None \<Rightarrow> PNone | Some x \<Rightarrow> x)
      in if v = PNone then safe_get_sheet_text ws r c else v)"

text \<open>
  The counting loop over the rows \<open>rs + 1 .. re\<close> (lines 269 to 288), with the counters
  \<open>rows\<close> and \<open>desc_rows\<close> passed along. An exception of \<open>str()\<close> leaves the loop.
\<close>

fun count_rows :: "pyrt \<Rightarrow> sheet \<Rightarrow> array2d \<Rightarrow> int list \<Rightarrow> nat \<times> nat \<Rightarrow> exn + nat \<times> nat" where
  "count_rows rt ws vals [] (rows, desc_rows) = Inr (rows, desc_rows)"
| "count_rows rt ws vals (r # rest) (rows, desc_rows) =
     (let cs = lower1 vals; ce = upper1 vals
      in case nonblank rt (count_cell ws vals r cs) of
          Inl e \<Rightarrow> Inl e
        | Inr a \<Rightarrow>
            (let rows' = (if a then rows + 1 else rows)
             in if cs + 1 \<le> ce
                then (case nonblank rt (count_cell ws vals r (cs + 1)) of
                    Inl e \<Rightarrow> Inl e
                  | Inr b \<Rightarrow> count_rows rt ws vals rest (rows', if b then desc_rows + 1 else desc_rows))
                else count_rows rt ws vals rest (rows', desc_rows)))"

text \<open>The dictionary \<open>best\<close> of the selection loop.\<close>

record best =
  best_sheet :: "sheet option"
  best_values :: "array2d option"
  best_rows :: nat
  best_desc_rows :: nat

definition best_init :: best where
  "best_init = \<lparr> best_sheet = None, best_values = None, best_rows = 0, best_desc_rows = 0 \<rparr>"

text \<open>
  One round of the selection loop (lines 247 to 322). A sheet that cannot be read, a
  degenerate range and an exception while counting all leave \<open>best\<close> as it is.
  The calls of \<^verbatim>\<open>ComInterop.release\<close> are left out: they do not change the values read
  from a sheet. The handler of a sheet that cannot be read releases whatever \<open>ws\<close> and
  \<open>rng\<close> held last, which can be the sheet picked so far; the formatted text and the name
  of a released sheet can no longer be read, which is a sheet whose
  \<open>safe_get_sheet_text\<close> and \<open>sheet_name\<close> give \<open>None\<close>.
\<close>

definition scan_sheet :: "pyrt \<Rightarrow> sheet option \<Rightarrow> best \<Rightarrow> best" where
  "scan_sheet rt item b = (case item of
       None \<Rightarrow> b
     | Some ws \<Rightarrow>
         (let vals = coerce_to_2d (value2 ws);
              rs = lower0 vals; re = upper0 vals; cs = lower1 vals; ce = upper1 vals
          in if re < rs \<or> ce < cs then b
             else case count_rows rt ws vals [rs + 1 .. re] (0, 0) of
                 Inl e \<Rightarrow> b
               | Inr (rows, desc_rows) \<Rightarrow>
                   (let pick = (if desc_rows > best_desc_rows b then True
                                else if desc_rows = best_desc_rows b \<and> rows > best_rows b then True
                                else False)
                    in if pick
                       then \<lparr> best_sheet = Some ws, best_values = Some vals,
                              best_rows = rows, best_desc_rows = desc_rows \<rparr>
                       else b)))"

fun scan_sheets :: "pyrt \<Rightarrow> sheet option list \<Rightarrow> best \<Rightarrow> best" where
  "scan_sheets rt [] b = b"
| "scan_sheets rt (item # items) b = scan_sheets rt items (scan_sheet rt item b)"

text \<open>
  The sheets in scanning order: indices \<open>1 .. sheet_count\<close>, with a count of 1 when
  \<^verbatim>\<open>Count\<close> raises.
\<close>

definition workbook_sheets :: "workbook \<Rightarrow> sheet option list" where
  "workbook_sheets wb =
     (let n = (case sheet_count wb of None \<Rightarrow> 1 | Some k \<Rightarrow> k)
      in map (sheet_item wb) [1 .. n])"

definition select_sheet :: "pyrt \<Rightarrow> workbook \<Rightarrow> best" where
  "select_sheet rt wb = scan_sheets rt (workbook_sheets wb) best_init"

section \<open>Row index builder\<close>

text \<open>The dictionary \<open>diag\<close> that \<^verbatim>\<open>read_excel\<close> stores in \<^verbatim>\<open>ExcelReader.LastDiagnostics\<close>.\<close>

record diagnostics =
  diag_row_start :: "int option"
  diag_row_end :: "int option"
  diag_col_start :: "int option"
  diag_col_end :: "int option"
  diag_headers :: "ustr list"
  diag_description_index :: "int option"
  diag_rows_read :: nat
  diag_samples :: "(pyval \<times> pyval) list"
  diag_rows :: "(ustr \<times> ustr) list"
  diag_sheet :: pyval
  diag_sheet_rows :: nat
  diag_sheet_desc_rows :: nat

definition diag_init :: diagnostics where
  "diag_init = \<lparr> diag_row_start = None, diag_row_end = None, diag_col_start = None,
       diag_col_end = None, diag_headers = [], diag_description_index = None,
       diag_rows_read = 0, diag_samples = [], diag_rows = [], diag_sheet = PNone,
       diag_sheet_rows = 0, diag_sheet_desc_rows = 0 \<rparr>"

definition MaxLogRows :: nat where
  "MaxLogRows = 20"

text \<open>The closures \<^verbatim>\<open>safe_get\<close> and \<^verbatim>\<open>safe_get_text\<close> of \<^verbatim>\<open>read_excel\<close>.\<close>

definition safe_get :: "array2d \<Rightarrow> int \<Rightarrow> int \<Rightarrow> pyval" where
  "safe_get vals r c = (case arr_get vals r c of None \<Rightarrow> PNone | Some v \<Rightarrow> v)"

definition safe_get_text :: "sheet option \<Rightarrow> int \<Rightarrow> int \<Rightarrow> pyval" where
  "safe_get_text sh r c = (case sh of None \<Rightarrow> PNone | Some ws \<Rightarrow> safe_get_sheet_text ws r c)"


text \<open>\<^verbatim>\<open>str(v).strip()\<close>, which raises when \<open>str()\<close> does.\<close>

definition str_strip :: "pyrt \<Rightarrow> pyval \<Rightarrow> exn + ustr" where
  "str_strip rt v = (case py_str rt v of None \<Rightarrow> Inl str_error | Some s \<Rightarrow> Inr (py_strip s))"

text \<open>
  The file name of a data row (lines 385 to 392): \<open>Inr None\<close> when the row is skipped.
  The second component is \<open>file_val\<close>, which the samples record.
\<close>

definition read_file_name :: "pyrt \<Rightarrow> sheet option \<Rightarrow> array2d \<Rightarrow> int \<Rightarrow> exn + (ustr \<times> pyval) option" where
  "read_file_name rt sh vals row =
     (let file_val = safe_get vals row (lower1 vals)
      in case (if file_val = PNone then Inr True
               else case str_strip rt file_val of Inl e \<Rightarrow> Inl e | Inr s \<Rightarrow> Inr (s = [])) of
          Inl e \<Rightarrow> Inl e
        | Inr blank \<Rightarrow>
            (let file_val' = (if blank then safe_get_text sh row (lower1 vals) else file_val)
             in if file_val' = PNone then Inr None
                else case str_strip rt file_val' of
                    Inl e \<Rightarrow> Inl e
                  | Inr file_name \<Rightarrow> if file_name = [] then Inr None else Inr (Some (file_name, file_val'))))"

text \<open>The description of a data row (lines 394 to 400), always from the second column.\<close>

definition read_description :: "pyrt \<Rightarrow> sheet option \<Rightarrow> array2d \<Rightarrow> int \<Rightarrow> int \<Rightarrow> exn + ustr" where
  "read_description rt sh vals description_index row =
     (if description_index \<ge> lower1 vals \<and> description_index \<le> upper1 vals
      then (let desc_val = safe_get vals row description_index;
                desc_val' = (if desc_val = PNone \<or> (case desc_val of PStr s \<Rightarrow> py_strip s = [] | _ \<Rightarrow> False)
                             then safe_get_text sh row description_index else desc_val)
            in if desc_val' \<noteq> PNone then str_strip rt desc_val' else Inr [])
      else Inr [])"

text \<open>The loop over the data rows (lines 384 to 416), passing the index and the diagnostics.\<close>

fun read_rows :: "pyrt \<Rightarrow> sheet option \<Rightarrow> array2d \<Rightarrow> int \<Rightarrow> int list \<Rightarrow>
    excel_row pydict \<times> diagnostics \<Rightarrow> exn + excel_row pydict \<times> diagnostics" where
  "read_rows rt sh vals description_index [] (result, diag) = Inr (result, diag)"
| "read_rows rt sh vals description_index (row # rest) (result, diag) =
     (case read_file_name rt sh vals row of
         Inl e \<Rightarrow> Inl e
       | Inr None \<Rightarrow> read_rows rt sh vals description_index rest (result, diag)
       | Inr (Some (file_name, file_val)) \<Rightarrow>
           (case read_description rt sh vals description_index row of
               Inl e \<Rightarrow> Inl e
             | Inr description \<Rightarrow>
                 (let diag1 = (if length (diag_samples diag) < 5
                               then diag\<lparr> diag_samples := diag_samples diag
                                        @ [(file_val, safe_get vals row description_index)] \<rparr>
                               else diag);
                      row_obj = \<lparr> FileName = file_name, Description = description \<rparr>;
                      result' = register_row rt result row_obj;
                      diag2 = diag1\<lparr> diag_rows_read := diag_rows_read diag1 + 1 \<rparr>;
                      diag3 = (if length (diag_rows diag2) < MaxLogRows
                               then diag2\<lparr> diag_rows := diag_rows diag2 @ [(file_name, description)] \<rparr>
                               else diag2)
                  in read_rows rt sh vals description_index rest (result', diag3))))"





section \<open>Auxiliary notions for the proofs about the row index\<close>

text \<open>
  The accepted data rows of the row loop, in order: the rows for which the loop builds a
  row object.
\<close>

fun accepted_rows :: "pyrt \<Rightarrow> sheet option \<Rightarrow> array2d \<Rightarrow> int \<Rightarrow> int list \<Rightarrow> excel_row list" where
  "accepted_rows rt sh vals description_index [] = []"
| "accepted_rows rt sh vals description_index (row # rest) =
     (case read_file_name rt sh vals row of
         Inr (Some (file_name, file_val)) \<Rightarrow>
           (case read_description rt sh vals description_index row of
               Inr description \<Rightarrow>
                 \<lparr> FileName = file_name, Description = description \<rparr>
                   # accepted_rows rt sh vals description_index rest
             | Inl e \<Rightarrow> accepted_rows rt sh vals description_index rest)
       | _ \<Rightarrow> accepted_rows rt sh vals description_index rest)"

text \<open>Whether a row is registered under a key: the key is one of its two keys.\<close>

definition has_key :: "pyrt \<Rightarrow> ustr \<Rightarrow> excel_row \<Rightarrow> bool" where
  "has_key rt k row \<longleftrightarrow>
     k = normalize_name rt (PStr (FileName row)) \<or> k = normalize_base rt (PStr (FileName row))"


section \<open>Auxiliary notions for the proofs about the sheet selector\<close>

text \<open>
  The two counts of a sheet, \<open>(rows, desc_rows)\<close>, as one round of the selection loop
  computes them; \<open>None\<close> for a sheet the round passes over (unreadable, degenerate, or an
  exception while counting).
\<close>

definition sheet_score :: "pyrt \<Rightarrow> sheet option \<Rightarrow> (nat \<times> nat) option" where
  "sheet_score rt item = (case item of
       None \<Rightarrow> None
     | Some ws \<Rightarrow>
         (let vals = coerce_to_2d (value2 ws)
          in if upper0 vals < lower0 vals \<or> upper1 vals < lower1 vals then None
             else case count_rows rt ws vals [lower0 vals + 1 .. upper0 vals] (0, 0) of
                 Inl e \<Rightarrow> None
               | Inr p \<Rightarrow> Some p))"

text \<open>The pick rule on two pairs \<open>(rows, desc_rows)\<close>: more descriptions, or as many and more rows.\<close>

definition beats :: "nat \<times> nat \<Rightarrow> nat \<times> nat \<Rightarrow> bool" where
  "beats p q \<longleftrightarrow> snd p > snd q \<or> (snd p = snd q \<and> fst p > fst q)"

text \<open>The value of \<open>best\<close> after a sheet has been picked.\<close>

definition picked :: "sheet \<Rightarrow> nat \<times> nat \<Rightarrow> best" where
  "picked ws p = \<lparr> best_sheet = Some ws, best_values = Some (coerce_to_2d (value2 ws)),
       best_rows = fst p, best_desc_rows = snd p \<rparr>"

text \<open>The state of the selection loop after any number of sheets.\<close>

definition selected :: "pyrt \<Rightarrow> sheet option list \<Rightarrow> best \<Rightarrow> bool" where
  "selected rt items b \<longleftrightarrow>
     (b = best_init \<and> (\<forall>j < length items. \<forall>q. sheet_score rt (items ! j) = Some q \<longrightarrow> q = (0, 0)))
   \<or> (\<exists>i < length items. \<exists>ws p.
         items ! i = Some ws \<and> sheet_score rt (items ! i) = Some p \<and> p \<noteq> (0, 0) \<and> b = picked ws p
       \<and> (\<forall>j < length items. \<forall>q. sheet_score rt (items ! j) = Some q \<longrightarrow> \<not> beats q p)
       \<and> (\<forall>j < i. \<forall>q. sheet_score rt (items ! j) = Some q \<longrightarrow> beats p q))"


section \<open>Auth session manager\<close>

subsection \<open>The Basic credential\<close>

text \<open>
  A .NET string is a sequence of UTF-16 code units: a code point from U+10000 on is a
  surrogate pair.
\<close>

definition utf16_units :: "ustr \<Rightarrow> nat list" where
  "utf16_units s = concat (map (\<lambda>c. if c < 65536 then [c]
       else [55296 + (c - 65536) div 1024, 56320 + (c - 65536) mod 1024]) s)"

text \<open>
  \<^verbatim>\<open>Encoding.ASCII.GetBytes\<close>: a code unit below 128 is its own byte, every other code
  unit is replaced by \<^verbatim>\<open>?\<close> (byte 63).
\<close>

definition ascii_get_bytes :: "ustr \<Rightarrow> nat list" where
  "ascii_get_bytes s = map (\<lambda>u. if u < 128 then u else 63) (utf16_units s)"

text \<open>\<^verbatim>\<open>Convert.ToBase64String\<close>: the standard alphabet, padded with \<^verbatim>\<open>=\<close>.\<close>

definition b64_char :: "nat \<Rightarrow> nat" where
  "b64_char n = (if n < 26 then 65 + n else if n < 52 then 97 + (n - 26)
                 else if n < 62 then 48 + (n - 52) else if n = 62 then 43 else 47)"

fun to_base64 :: "nat list \<Rightarrow> ustr" where
  "to_base64 [] = []"
| "to_base64 [a] = [b64_char (a div 4), b64_char ((a mod 4) * 16), 61, 61]"
| "to_base64 [a, b] =
     [b64_char (a div 4), b64_char ((a mod 4) * 16 + b div 16), b64_char ((b mod 16) * 4), 61]"
| "to_base64 (a # b # c # rest) =
     [b64_char (a div 4), b64_char ((a mod 4) * 16 + b div 16),
      b64_char ((b mod 16) * 4 + c div 64), b64_char (c mod 64)] @ to_base64 rest"

text \<open>\<^verbatim>\<open>AccAuthClient._basic_auth\<close>.\<close>

definition basic_auth :: "ustr \<Rightarrow> ustr \<Rightarrow> ustr" where
  "basic_auth client_id client_secret =
     (let raw = client_id @ U '':'' @ client_secret;
          raw_bytes = ascii_get_bytes raw
      in to_base64 raw_bytes)"

text \<open>
  The encoding the specification names, for comparison: the UTF-8 bytes of a string.
\<close>

definition utf8_encode :: "ustr \<Rightarrow> nat list" where
  "utf8_encode s = concat (map (\<lambda>c.
       if c < 128 then [c]
       else if c < 2048 then [192 + c div 64, 128 + c mod 64]
       else if c < 65536 then [224 + c div 4096, 128 + (c div 64) mod 64, 128 + c mod 64]
       else [240 + c div 262144, 128 + (c div 4096) mod 64, 128 + (c div 64) mod 64, 128 + c mod 64]) s)"

subsection \<open>The authorization-code flow\<close>

text \<open>
  The query string of the callback request: \<^verbatim>\<open>QueryString[name]\<close> is \<open>None\<close> for a
  parameter that is absent.
\<close>

record callback =
  cb_code :: "ustr option"
  cb_state :: "ustr option"
  cb_error :: "ustr option"

text \<open>
  What happens around one run of \<^verbatim>\<open>authenticate\<close>: the state token drawn by
  \<^verbatim>\<open>Guid.NewGuid\<close>, whether starting the listener or the browser raises, the callback
  that arrives within the timeout (\<open>None\<close> when \<^verbatim>\<open>WaitOne\<close> times out), whether
  writing the confirmation page raises, and the answer of \<^verbatim>\<open>_exchange_code\<close> (the POST
  to the token endpoint and the parse of its response) to a code.
\<close>

record 's auth_env =
  new_state :: ustr
  listener_start_raises :: "exn option"
  browser_start_raises :: "exn option"
  arrival :: "callback option"
  write_response_raises :: "exn option"
  exchange_code :: "ustr \<Rightarrow> exn + 's"

datatype auth_event =
    ListenerStart
  | BrowserOpen
  | WriteResponse "ustr option"
  | ExchangeCode ustr
  | ListenerStop

text \<open>
  The checks on the callback and the exchange (lines 486 to 493), in the order of the
  source: \<^verbatim>\<open>if error\<close>, then \<^verbatim>\<open>if not code\<close>, then
  \<^verbatim>\<open>if state != returned_state\<close>. An absent parameter and an empty one are both
  false in a condition.
\<close>

definition check_callback :: "'s auth_env \<Rightarrow> callback \<Rightarrow> (exn + 's) \<times> auth_event list" where
  "check_callback env context =
     (let code = cb_code context;
          returned_state = cb_state context;
          error = cb_error context;
          after_error =
            (case code of
                None \<Rightarrow> (Inl (Exception (U ''Authorization code missing.'')), [])
              | Some c \<Rightarrow>
                  if c = [] then (Inl (Exception (U ''Authorization code missing.'')), [])
                  else if Some (new_state env) \<noteq> returned_state
                  then (Inl (Exception (U ''State mismatch. Possible tampering.'')), [])
                  else (exchange_code env c, [ExchangeCode c]))
      in case error of
          None \<Rightarrow> after_error
        | Some e \<Rightarrow> if e = [] then after_error else (Inl (Exception (U ''Auth error: '' @ e)), []))"

text \<open>
  The body of the \<^verbatim>\<open>try\<close> block of \<^verbatim>\<open>AccAuthClient.authenticate\<close> (lines 472 to 493),
  with the events it causes: the browser is opened, the wait ends with a callback or a
  timeout, the confirmation page is written, the callback is checked.
\<close>

definition authenticate_body :: "'s auth_env \<Rightarrow> (exn + 's) \<times> auth_event list" where
  "authenticate_body env =
     (case browser_start_raises env of
         Some e \<Rightarrow> (Inl e, [])
       | None \<Rightarrow>
          (case arrival env of
              None \<Rightarrow> (Inl (Exception (U ''Login timed out. Please try again.'')), [BrowserOpen])
            | Some context \<Rightarrow>
               (case write_response_raises env of
                   Some e \<Rightarrow> (Inl e, [BrowserOpen])
                 | None \<Rightarrow>
                    (let (r, evs) = check_callback env context
                     in (r, [BrowserOpen, WriteResponse (cb_error context)] @ evs)))))"

text \<open>
  \<^verbatim>\<open>AccAuthClient.authenticate\<close>: the listener is started before the \<^verbatim>\<open>try\<close> block and
  stopped in its \<^verbatim>\<open>finally\<close> clause.
\<close>

definition authenticate :: "'s auth_env \<Rightarrow> (exn + 's) \<times> auth_event list" where
  "authenticate env =
     (case listener_start_raises env of
         Some e \<Rightarrow> (Inl e, [])
       | None \<Rightarrow>
          (let (r, evs) = authenticate_body env
           in (r, [ListenerStart] @ evs @ [ListenerStop])))"

section \<open>Resource client\<close>

text \<open>
  \<^verbatim>\<open>class FolderNode\<close>: a node that is neither a placeholder nor an up-level entry starts
  with one placeholder child.
\<close>

datatype folder_node =
  FolderNode (node_id: pyval) (node_name: pyval) (IsPlaceholder: bool) (IsUpLevel: bool)
    (Children: "folder_node list") (IsLoaded: bool) (IsLoading: bool)

definition new_folder_node :: "pyval \<Rightarrow> pyval \<Rightarrow> folder_node" where
  "new_folder_node fid name =
     FolderNode fid name False False
       [FolderNode (PStr []) (PStr []) True False [] False False] False False"

text \<open>
  \<^verbatim>\<open>class FileItem\<close>. The fields hold whatever the JSON response holds at that place.
\<close>

record file_item =
  Id :: pyval
  DisplayName :: pyval
  Description :: pyval
  ExtensionType :: pyval
  CanUpdateDescription :: bool

text \<open>\<^verbatim>\<open>x.lower()\<close>: only a string has the method.\<close>

definition lower_method :: "pyrt \<Rightarrow> pyval \<Rightarrow> exn + ustr" where
  "lower_method rt v = (case v of PStr s \<Rightarrow> Inr (py_lower rt s) | _ \<Rightarrow> Inl AttributeError)"

text \<open>
  \<^verbatim>\<open>for item in v\<close>: the elements of a list, the characters of a string, the keys of a
  dict; \<open>TypeError\<close> on anything else.
\<close>

definition py_iter :: "pyval \<Rightarrow> exn + pyval list" where
  "py_iter v = (case v of
       PList xs \<Rightarrow> Inr xs
     | PStr s \<Rightarrow> Inr (map (\<lambda>c. PStr [c]) s)
     | PDict kvs \<Rightarrow> Inr (map (\<lambda>(k, x). PStr k) kvs)
     | _ \<Rightarrow> Inl TypeError)"

text \<open>
  One round of the loop of \<^verbatim>\<open>AccDataClient._parse_folder_contents\<close> (lines 725 to 740):
  the lists \<open>folders\<close> and \<open>files\<close> after the entry, or the exception it raises.
\<close>

definition parse_entry :: "pyrt \<Rightarrow> pyval \<Rightarrow> folder_node list \<times> file_item list \<Rightarrow>
    exn + folder_node list \<times> file_item list" where
  "parse_entry rt item acc = (case acc of (folders, files) \<Rightarrow>
     ebind (py_get item (U ''type'') (PStr [])) (\<lambda>item_type.
     ebind (py_get item (U ''attributes'') (PDict [])) (\<lambda>attrs.
     ebind (lower_method rt item_type) (\<lambda>lowered.
       if lowered = U ''folders''
       then ebind (py_get item (U ''id'') (PStr [])) (\<lambda>fid.
            ebind (py_get attrs (U ''displayName'') (PStr [])) (\<lambda>name.
              Inr (folders @ [new_folder_node fid name], files)))
       else if lowered = U ''items''
       then ebind (py_get attrs (U ''extension'') (PDict [])) (\<lambda>ext.
            ebind (py_get ext (U ''type'') (PStr [])) (\<lambda>ext_type.
            ebind (py_get item (U ''id'') (PStr [])) (\<lambda>iid.
            ebind (py_get attrs (U ''displayName'') (PStr [])) (\<lambda>name.
            ebind (py_get attrs (U ''description'') (PStr [])) (\<lambda>description.
              (let can_update = True
               in Inr (folders, files @ [\<lparr> Id = iid, DisplayName = name,
                     Description = description, ExtensionType = ext_type,
                     CanUpdateDescription = can_update \<rparr>])))))))
       else Inr (folders, files)))))"

fun parse_entries :: "pyrt \<Rightarrow> pyval list \<Rightarrow> folder_node list \<times> file_item list \<Rightarrow>
    exn + folder_node list \<times> file_item list" where
  "parse_entries rt [] acc = Inr acc"
| "parse_entries rt (item # rest) acc =
     (case parse_entry rt item acc of Inl e \<Rightarrow> Inl e | Inr acc' \<Rightarrow> parse_entries rt rest acc')"

text \<open>\<^verbatim>\<open>AccDataClient._parse_folder_contents\<close>.\<close>

definition parse_folder_contents :: "pyrt \<Rightarrow> pyval \<Rightarrow> folder_node list \<Rightarrow> file_item list \<Rightarrow>
    exn + folder_node list \<times> file_item list" where
  "parse_folder_contents rt root folders files =
     ebind (py_get root (U ''data'') (PList [])) (\<lambda>data.
     ebind (py_iter data) (\<lambda>entries.
       parse_entries rt entries (folders, files)))"

text \<open>
  The pattern \<^verbatim>\<open>x.get(key, {}) if isinstance(x, dict) else {}\<close>, which cannot raise.
\<close>

definition dict_or_empty :: "pyval \<Rightarrow> ustr \<Rightarrow> pyval" where
  "dict_or_empty x key = (case x of
       PDict kvs \<Rightarrow> (case map_of kvs key of Some v \<Rightarrow> v | None \<Rightarrow> PDict [])
     | _ \<Rightarrow> PDict [])"

text \<open>\<^verbatim>\<open>get_next_link\<close>: the \<open>href\<close> of the \<open>next\<close> link of an envelope, or \<open>None\<close>.\<close>

definition get_next_link :: "pyval \<Rightarrow> pyval" where
  "get_next_link root =
     (let links = dict_or_empty root (U ''links'');
          next_link = (case links of
              PDict kvs \<Rightarrow> (case map_of kvs (U ''next'') of Some v \<Rightarrow> v | None \<Rightarrow> PNone)
            | _ \<Rightarrow> PNone)
      in case next_link of
          PDict kvs \<Rightarrow> (case map_of kvs (U ''href'') of Some v \<Rightarrow> v | None \<Rightarrow> PNone)
        | _ \<Rightarrow> PNone)"

text \<open>
  \<^verbatim>\<open>self._get(url)\<close> followed by \<^verbatim>\<open>json.loads(json_text) if json_text else {}\<close>. The
  transport \<open>http_get\<close> stands for \<^verbatim>\<open>_ensure_token\<close> and the GET request: it answers
  a URL with the response text or with an exception.
\<close>

definition get_root :: "pyrt \<Rightarrow> (pyval \<Rightarrow> exn + ustr) \<Rightarrow> pyval \<Rightarrow> exn + pyval" where
  "get_root rt http_get url =
     ebind (http_get url) (\<lambda>json_text.
       if json_text = [] then Inr (PDict []) else json_loads rt json_text)"

text \<open>
  The loop \<^verbatim>\<open>while next_url:\<close> of \<^verbatim>\<open>AccDataClient.get_files_in_folder\<close> (lines 624 to
  631). Nothing bounds the number of rounds, so the loop is a partial function: \<open>None\<close>
  is a loop that never ends. The last argument records the URLs requested so far, in order.
\<close>

partial_function (option) files_loop :: "pyrt \<Rightarrow> (pyval \<Rightarrow> exn + ustr) \<Rightarrow> pyval \<Rightarrow>
    folder_node list \<times> file_item list \<Rightarrow> pyval list \<Rightarrow>
    ((exn + file_item list) \<times> pyval list) option" where
  "files_loop rt http_get next_url acc fetched =
     (if truthy next_url
      then (case get_root rt http_get next_url of
               Inl e \<Rightarrow> Some (Inl e, fetched @ [next_url])
             | Inr root \<Rightarrow>
                 (case parse_folder_contents rt root (fst acc) (snd acc) of
                     Inl e \<Rightarrow> Some (Inl e, fetched @ [next_url])
                   | Inr acc' \<Rightarrow>
                       files_loop rt http_get (get_next_link root) acc' (fetched @ [next_url])))
      else Some (Inr (snd acc), fetched))"

text \<open>
  \<^verbatim>\<open>AccDataClient.get_files_in_folder\<close>. The first URL is built from the project and
  folder ids with \<^verbatim>\<open>Uri.EscapeDataString\<close>, a function of .NET that is a parameter here.
\<close>

definition contents_url :: "(ustr \<Rightarrow> ustr) \<Rightarrow> ustr \<Rightarrow> ustr \<Rightarrow> ustr" where
  "contents_url escape project_id folder_id =
     U ''https://developer.api.autodesk.com/data/v1/projects/'' @ escape project_id
       @ U ''/folders/'' @ escape folder_id @ U ''/contents''"

definition get_files_in_folder :: "pyrt \<Rightarrow> (pyval \<Rightarrow> exn + ustr) \<Rightarrow> (ustr \<Rightarrow> ustr) \<Rightarrow> ustr \<Rightarrow> ustr \<Rightarrow>
    ((exn + file_item list) \<times> pyval list) option" where
  "get_files_in_folder rt http_get escape project_id folder_id =
     files_loop rt http_get (PStr (contents_url escape project_id folder_id)) ([], []) []"

section \<open>Auxiliary notions for the proofs about the paginated listing\<close>

text \<open>
  A listing as the server and the runtime give it: from a URL on, the pages in order, each
  with the URL it is fetched from, the parsed envelope and the file items of that envelope
  alone. Every page but the last links to the next one; the chain ends at an \<open>href\<close>
  that is absent or false in a condition.
\<close>

fun page_chain :: "pyrt \<Rightarrow> (pyval \<Rightarrow> exn + ustr) \<Rightarrow> pyval \<Rightarrow>
    (pyval \<times> pyval \<times> file_item list) list \<Rightarrow> bool" where
  "page_chain rt http_get url [] = (\<not> truthy url)"
| "page_chain rt http_get url ((u, root, files) # pages) =
     (u = url \<and> truthy url \<and> get_root rt http_get url = Inr root
      \<and> (case parse_folder_contents rt root [] [] of Inl e \<Rightarrow> False | Inr (fo, fi) \<Rightarrow> fi = files)
      \<and> page_chain rt http_get (get_next_link root) pages)"


section \<open>Reconciliation engine\<close>

text \<open>
  The two calls the pass makes on the data client, with their arguments:
  \<^verbatim>\<open>get_item_detail(project.Id, file_item.Id)\<close> and
  \<^verbatim>\<open>update_version_description(project.Id, tip, row.Description)\<close>.
\<close>

datatype call =
    GetItemDetail pyval pyval
  | UpdateVersionDescription pyval pyval ustr

text \<open>
  The remote service and the token guard in front of it. An answer may depend on every
  call made before: \<open>item_detail\<close> gives the response text of a detail request or the
  exception it raises, \<open>version_update\<close> the exception of an update, \<open>None\<close> when it
  succeeds.
\<close>

record remote =
  item_detail :: "call list \<Rightarrow> pyval \<Rightarrow> pyval \<Rightarrow> exn + ustr"
  version_update :: "call list \<Rightarrow> pyval \<Rightarrow> pyval \<Rightarrow> ustr \<Rightarrow> exn option"

text \<open>
  The lines the pass writes to the log pane, one constructor for each format string of
  \<^verbatim>\<open>on_apply_descriptions\<close>. An item label \<^verbatim>\<open>"{0} [{1}]"\<close> is kept as the pair of the
  display name and the extension type it is formatted from.
\<close>

type_synonym item_label = "pyval \<times> pyval"

datatype log_entry =
    LogKeysSample "ustr list"
  | LogSkippedMissingId item_label
  | LogSkippedNoRow item_label ustr ustr
  | LogSkippedEmptyDescription item_label ustr
  | LogUpdating pyval pyval pyval nat ustr
  | LogPreUpdateItem pyval pyval pyval
  | LogPreUpdateFetchFailed exn
  | LogSkippedC4R item_label
  | LogSkippedMissingTip item_label
  | LogUpdated item_label
  | LogFailedToUpdate item_label exn
  | LogUpdateFinished nat nat

text \<open>
  What the pass changes: the two counters, the log, the calls made on the data client, and
  the file items it has gone through, in order, with their in-memory descriptions.
\<close>

record pass_state =
  updated :: nat
  skipped :: nat
  log :: "log_entry list"
  calls :: "call list"
  done_items :: "file_item list"

definition pass_init :: pass_state where
  "pass_init = \<lparr> updated = 0, skipped = 0, log = [], calls = [], done_items = [] \<rparr>"

definition desc_preview :: "ustr \<Rightarrow> ustr" where
  "desc_preview d = (if length d > 120 then take 117 d @ U ''...'' else d)"

text \<open>
  The row of an item (lines 1482 to 1486): looked up under \<open>normalize_name\<close> of the
  display name and, only when that lookup gives nothing, under \<open>normalize_base\<close>.
\<close>

definition lookup_row :: "pyrt \<Rightarrow> excel_row pydict \<Rightarrow> file_item \<Rightarrow> excel_row option" where
  "lookup_row rt excel_rows file_item =
     (let row_key = normalize_name rt (DisplayName file_item);
          row = dict_get excel_rows row_key
      in case row of
          Some r \<Rightarrow> Some r
        | None \<Rightarrow>
            (let row_key_base = normalize_base rt (DisplayName file_item)
             in dict_get excel_rows row_key_base))"

text \<open>
  The inner \<^verbatim>\<open>try\<close> block that reads the tip version out of the item detail (lines 1521
  to 1527): any exception gives \<open>None\<close>.
\<close>

definition read_tip :: "pyval \<Rightarrow> pyval" where
  "read_tip item_data =
     (let rel = dict_or_empty item_data (U ''relationships'');
          tip_rel = dict_or_empty rel (U ''tip'');
          tip_data = dict_or_empty tip_rel (U ''data'')
      in case py_get tip_data (U ''id'') PNone of Inl e \<Rightarrow> PNone | Inr tip \<Rightarrow> tip)"

text \<open>
  The body of the \<^verbatim>\<open>try\<close> block that fetches the item detail (lines 1512 to 1528): the
  extension type and description it logs and the tip, or the exception that sends control
  to \<^verbatim>\<open>except Exception as ex\<close>.
\<close>

definition fetch_detail :: "pyrt \<Rightarrow> remote \<Rightarrow> call list \<Rightarrow> pyval \<Rightarrow> pyval \<Rightarrow>
    exn + pyval \<times> pyval \<times> pyval" where
  "fetch_detail rt rem cs project_id item_id =
     ebind (item_detail rem cs project_id item_id) (\<lambda>item_json.
     ebind (if item_json = [] then Inr (PDict []) else json_loads rt item_json) (\<lambda>item_root.
       (let item_data = dict_or_empty item_root (U ''data'');
            item_attrs = dict_or_empty item_data (U ''attributes'');
            ext = dict_or_empty item_attrs (U ''extension'')
        in ebind (py_get ext (U ''type'') (PStr [])) (\<lambda>ext_type.
           (let ext_data = dict_or_empty ext (U ''data'')
            in ebind (py_get ext_data (U ''description'') (PStr [])) (\<lambda>current_desc.
                 Inr (ext_type, current_desc, read_tip item_data)))))))"

definition C4RModel :: ustr where
  "C4RModel = U ''items:autodesk.bim360:C4RModel''"

text \<open>
  The outer \<^verbatim>\<open>try\<close> block of one round (lines 1497 to 1549), for an item that has an id
  and a row with a description. The handler of the fetch sets the tip to \<open>None\<close> and
  goes on; the handler of the block logs the exception of the update.
\<close>

definition update_item :: "pyrt \<Rightarrow> remote \<Rightarrow> pyval \<Rightarrow> excel_row \<Rightarrow> pass_state \<Rightarrow> file_item \<Rightarrow> pass_state" where
  "update_item rt rem project_id row st file_item =
     (let item_label = (DisplayName file_item, ExtensionType file_item);
          st1 = st\<lparr> log := log st @ [LogUpdating (DisplayName file_item) (ExtensionType file_item)
                     (Id file_item) (length (excel_row.Description row))
                     (desc_preview (excel_row.Description row))] \<rparr>;
          fetched = fetch_detail rt rem (calls st1) project_id (Id file_item);
          st2 = st1\<lparr> calls := calls st1 @ [GetItemDetail project_id (Id file_item)] \<rparr>;
          tip = (case fetched of Inl ex \<Rightarrow> PNone | Inr (ext_type, current_desc, t) \<Rightarrow> t);
          st3 = st2\<lparr> log := log st2 @ [case fetched of
                     Inl ex \<Rightarrow> LogPreUpdateFetchFailed ex
                   | Inr (ext_type, current_desc, t) \<Rightarrow>
                       LogPreUpdateItem ext_type current_desc (if truthy t then t else PStr [])] \<rparr>
      in if ExtensionType file_item = PStr C4RModel
         then st3\<lparr> skipped := skipped st3 + 1, log := log st3 @ [LogSkippedC4R item_label],
                  done_items := done_items st3 @ [file_item] \<rparr>
         else if \<not> truthy tip
         then st3\<lparr> skipped := skipped st3 + 1, log := log st3 @ [LogSkippedMissingTip item_label],
                  done_items := done_items st3 @ [file_item] \<rparr>
         else (let answer = version_update rem (calls st3) project_id tip (excel_row.Description row);
                   st4 = st3\<lparr> calls := calls st3
                           @ [UpdateVersionDescription project_id tip (excel_row.Description row)] \<rparr>
               in case answer of
                   Some ex \<Rightarrow>
                     st4\<lparr> log := log st4 @ [LogFailedToUpdate item_label ex],
                          done_items := done_items st4 @ [file_item] \<rparr>
                 | None \<Rightarrow>
                     st4\<lparr> updated := updated st4 + 1, log := log st4 @ [LogUpdated item_label],
                          done_items := done_items st4
                            @ [file_item\<lparr> Description := PStr (excel_row.Description row) \<rparr>] \<rparr>))"

text \<open>One round of the loop \<^verbatim>\<open>for file_item in list(self._file_items)\<close> (lines 1475 to 1549).\<close>

definition process_item :: "pyrt \<Rightarrow> remote \<Rightarrow> pyval \<Rightarrow> excel_row pydict \<Rightarrow> pass_state \<Rightarrow> file_item \<Rightarrow> pass_state" where
  "process_item rt rem project_id excel_rows st file_item =
     (let item_label = (DisplayName file_item, ExtensionType file_item)
      in if \<not> truthy (Id file_item)
         then st\<lparr> skipped := skipped st + 1, log := log st @ [LogSkippedMissingId item_label],
                 done_items := done_items st @ [file_item] \<rparr>
         else case lookup_row rt excel_rows file_item of
             None \<Rightarrow>
               st\<lparr> skipped := skipped st + 1,
                   log := log st @ [LogSkippedNoRow item_label
                            (normalize_name rt (DisplayName file_item))
                            (normalize_base rt (DisplayName file_item))],
                   done_items := done_items st @ [file_item] \<rparr>
           | Some row \<Rightarrow>
               if excel_row.Description row = []
               then st\<lparr> skipped := skipped st + 1,
                       log := log st @ [LogSkippedEmptyDescription item_label (FileName row)],
                       done_items := done_items st @ [file_item] \<rparr>
               else update_item rt rem project_id row st file_item)"

fun process_items :: "pyrt \<Rightarrow> remote \<Rightarrow> pyval \<Rightarrow> excel_row pydict \<Rightarrow> file_item list \<Rightarrow> pass_state \<Rightarrow> pass_state" where
  "process_items rt rem project_id excel_rows [] st = st"
| "process_items rt rem project_id excel_rows (file_item # rest) st =
     process_items rt rem project_id excel_rows rest
       (process_item rt rem project_id excel_rows st file_item)"



section \<open>Auxiliary notions for the proofs about the reconciliation pass\<close>

text \<open>
  What one round of the pass adds to the state, as a function of the calls made so far and
  of the item: the increments of the two counters, the new log lines, the new calls and
  the item as it is left in memory.
\<close>

type_synonym effect = "nat \<times> nat \<times> log_entry list \<times> call list \<times> file_item"

definition apply_effect :: "pass_state \<Rightarrow> effect \<Rightarrow> pass_state" where
  "apply_effect st eff = (case eff of (du, ds, dl, dc, out) \<Rightarrow>
     st\<lparr> updated := updated st + du, skipped := skipped st + ds, log := log st @ dl,
         calls := calls st @ dc, done_items := done_items st @ [out] \<rparr>)"

definition update_effect :: "pyrt \<Rightarrow> remote \<Rightarrow> pyval \<Rightarrow> excel_row \<Rightarrow> call list \<Rightarrow> file_item \<Rightarrow> effect" where
  "update_effect rt rem project_id row cs file_item =
     (let item_label = (DisplayName file_item, ExtensionType file_item);
          desc = excel_row.Description row;
          fetched = fetch_detail rt rem cs project_id (Id file_item);
          tip = (case fetched of Inl ex \<Rightarrow> PNone | Inr (ext_type, current_desc, t) \<Rightarrow> t);
          l0 = [LogUpdating (DisplayName file_item) (ExtensionType file_item) (Id file_item)
                  (length desc) (desc_preview desc),
                case fetched of
                    Inl ex \<Rightarrow> LogPreUpdateFetchFailed ex
                  | Inr (ext_type, current_desc, t) \<Rightarrow>
                      LogPreUpdateItem ext_type current_desc (if truthy t then t else PStr [])];
          c0 = [GetItemDetail project_id (Id file_item)]
      in if ExtensionType file_item = PStr C4RModel
         then (0, 1, l0 @ [LogSkippedC4R item_label], c0, file_item)
         else if \<not> truthy tip
         then (0, 1, l0 @ [LogSkippedMissingTip item_label], c0, file_item)
         else case version_update rem (cs @ c0) project_id tip desc of
             Some ex \<Rightarrow>
               (0, 0, l0 @ [LogFailedToUpdate item_label ex],
                c0 @ [UpdateVersionDescription project_id tip desc], file_item)
           | None \<Rightarrow>
               (1, 0, l0 @ [LogUpdated item_label],
                c0 @ [UpdateVersionDescription project_id tip desc],
                file_item\<lparr> Description := PStr desc \<rparr>))"

definition item_effect :: "pyrt \<Rightarrow> remote \<Rightarrow> pyval \<Rightarrow> excel_row pydict \<Rightarrow> call list \<Rightarrow> file_item \<Rightarrow> effect" where
  "item_effect rt rem project_id excel_rows cs file_item =
     (let item_label = (DisplayName file_item, ExtensionType file_item)
      in if \<not> truthy (Id file_item) then (0, 1, [LogSkippedMissingId item_label], [], file_item)
         else case lookup_row rt excel_rows file_item of
             None \<Rightarrow>
               (0, 1, [LogSkippedNoRow item_label (normalize_name rt (DisplayName file_item))
                         (normalize_base rt (DisplayName file_item))], [], file_item)
           | Some row \<Rightarrow>
               if excel_row.Description row = []
               then (0, 1, [LogSkippedEmptyDescription item_label (FileName row)], [], file_item)
               else update_effect rt rem project_id row cs file_item)"

text \<open>Whether a call is a description update.\<close>

fun is_update :: "call \<Rightarrow> bool" where
  "is_update (UpdateVersionDescription p t d) = True"
| "is_update (GetItemDetail p i) = False"




section \<open>Example inputs\<close>

text \<open>
  Two runs of the sign-in: a callback that reports \<open>access_denied\<close> under a foreign
  state, and a callback with a code under the generated state.
\<close>

definition denied_env :: "unit auth_env" where
  "denied_env = \<lparr> new_state = U ''s1'', listener_start_raises = None, browser_start_raises = None,
      arrival = Some \<lparr> cb_code = None, cb_state = Some (U ''other''), cb_error = Some (U ''access_denied'') \<rparr>,
      write_response_raises = None, exchange_code = (\<lambda>c. Inr ()) \<rparr>"

definition good_env :: "unit auth_env" where
  "good_env = \<lparr> new_state = U ''s1'', listener_start_raises = None, browser_start_raises = None,
      arrival = Some \<lparr> cb_code = Some (U ''abc''), cb_state = Some (U ''s1''), cb_error = None \<rparr>,
      write_response_raises = None, exchange_code = (\<lambda>c. Inr ()) \<rparr>"


text \<open>
  Two sheets with a header row: one with the row of the specification's example and a
  later row that has the same key, one whose only data row has a file name made of the
  mark U+200E. \<open>one_sheet\<close> is the workbook with a single sheet.
\<close>

definition plan_sheet :: sheet where
  "plan_sheet = \<lparr> value2 = RArray (Array2D 1 3 1 2 (\<lambda>r c.
       if r = 1 then (if c = 1 then PStr (U ''File'') else PStr (U ''Description''))
       else if r = 2 then (if c = 1 then PStr (U ''Plan-A1.dwg'') else PStr (U ''First floor plan''))
       else (if c = 1 then PStr (U ''plan-a1'') else PStr (U ''Duplicate'')))),
     safe_get_sheet_text = (\<lambda>r c. PNone), sheet_name = PStr (U ''Sheet1'') \<rparr>"

definition marks_sheet :: sheet where
  "marks_sheet = \<lparr> value2 = RArray (Array2D 1 2 1 2 (\<lambda>r c.
       if r = 1 then (if c = 1 then PStr (U ''File'') else PStr (U ''Description''))
       else (if c = 1 then PStr [8206] else PStr (U ''Site plan'')))),
     safe_get_sheet_text = (\<lambda>r c. PNone), sheet_name = PStr (U ''Sheet1'') \<rparr>"

definition one_sheet :: "sheet \<Rightarrow> workbook" where
  "one_sheet ws = \<lparr> sheet_count = Some 1, sheet_item = (\<lambda>i. if i = 1 then Some ws else None) \<rparr>"


text \<open>
  A sheet with a header row and \<open>n\<close> data rows, both columns filled; a sheet with a
  header row and one data row that is filled in its third column only; a workbook of three
  sheets with no, one and one data row; an environment in which opening any workbook
  raises, and one whose workbook has no readable sheet.
\<close>

definition table_sheet :: "string \<Rightarrow> int \<Rightarrow> sheet" where
  "table_sheet name n = \<lparr> value2 = RArray (Array2D 1 (n + 1) 1 2 (\<lambda>r c. PStr (U ''x''))),
     safe_get_sheet_text = (\<lambda>r c. PNone), sheet_name = PStr (U name) \<rparr>"

definition third_column_sheet :: sheet where
  "third_column_sheet = \<lparr> value2 = RArray (Array2D 1 2 1 3 (\<lambda>r c.
       if r = 1 then PStr (U ''h'') else if c = 3 then PStr (U ''x'') else PNone)),
     safe_get_sheet_text = (\<lambda>r c. PStr []), sheet_name = PStr (U ''S1'') \<rparr>"

definition tie_book :: workbook where
  "tie_book = \<lparr> sheet_count = Some 3,
     sheet_item = (\<lambda>i. if i = 1 then Some (table_sheet ''S1'' 0)
                       else if i = 2 then Some (table_sheet ''S2'' 1)
                       else Some (table_sheet ''S3'' 1)) \<rparr>"





text \<open>
  A listing of three pages. Each envelope holds one file entry; the first two link to the
  next page, the third has no \<open>links\<close> member.
\<close>

definition entry_json :: "string \<Rightarrow> pyval" where
  "entry_json name = PDict [(U ''type'', PStr (U ''items'')), (U ''id'', PStr (U name)),
       (U ''attributes'', PDict [(U ''displayName'', PStr (U name))])]"

definition page_json :: "string \<Rightarrow> string \<Rightarrow> pyval" where
  "page_json name href = PDict [(U ''data'', PList [entry_json name]),
       (U ''links'', PDict [(U ''next'', PDict [(U ''href'', PStr (U href))])])]"

definition last_page_json :: "string \<Rightarrow> pyval" where
  "last_page_json name = PDict [(U ''data'', PList [entry_json name])]"

definition listed_item :: "string \<Rightarrow> file_item" where
  "listed_item name = \<lparr> Id = PStr (U name), DisplayName = PStr (U name), Description = PStr [],
       ExtensionType = PStr [], CanUpdateDescription = True \<rparr>"

definition first_url :: pyval where
  "first_url = PStr (contents_url (\<lambda>x. x) (U ''p'') (U ''f''))"

definition three_pages_get :: "pyval \<Rightarrow> exn + ustr" where
  "three_pages_get url =
     (if url = first_url then Inr (U ''1'')
      else if url = PStr (U ''u2'') then Inr (U ''2'')
      else if url = PStr (U ''u3'') then Inr (U ''3'')
      else Inl (RuntimeErr (U ''404'')))"

definition three_pages_rt :: pyrt where
  "three_pages_rt = ascii_rt\<lparr> json_loads := (\<lambda>t.
       if t = U ''1'' then Inr (page_json ''a.dwg'' ''u2'')
       else if t = U ''2'' then Inr (page_json ''b.dwg'' ''u3'')
       else if t = U ''3'' then Inr (last_page_json ''c.dwg'')
       else Inl (RuntimeErr (U ''JSONDecodeError''))) \<rparr>"



text \<open>
  A loaded index with the row of \<open>Plan-A1.dwg\<close> and a row without description, file
  items that meet each rule of the pass, the detail of an item with the tip \<open>v1\<close>, and
  three remotes: one that answers every call, one whose detail request fails, one whose
  update fails.
\<close>

definition row_plan :: excel_row where
  "row_plan = \<lparr> FileName = U ''Plan-A1.dwg'', Description = U ''First floor plan'' \<rparr>"

definition row_notes :: excel_row where
  "row_notes = \<lparr> FileName = U ''notes.txt'', Description = [] \<rparr>"

definition sync_rows :: "excel_row pydict" where
  "sync_rows = [(U ''plan-a1.dwg'', row_plan), (U ''plan-a1'', row_plan),
                (U ''notes.txt'', row_notes), (U ''notes'', row_notes)]"

definition item_named :: "string \<Rightarrow> string \<Rightarrow> string \<Rightarrow> file_item" where
  "item_named iid name ext = \<lparr> Id = PStr (U iid), DisplayName = PStr (U name), Description = PStr [],
       ExtensionType = PStr (U ext), CanUpdateDescription = True \<rparr>"

definition detail_json :: pyval where
  "detail_json = PDict [(U ''data'', PDict [
       (U ''attributes'', PDict [(U ''extension'', PDict [(U ''type'', PStr (U ''items:autodesk.bim360:File''))])]),
       (U ''relationships'', PDict [(U ''tip'', PDict [(U ''data'', PDict [(U ''id'', PStr (U ''v1''))])])])])]"

definition sync_rt :: pyrt where
  "sync_rt = ascii_rt\<lparr> json_loads := (\<lambda>t. if t = U ''d'' then Inr detail_json
                                          else Inl (RuntimeErr (U ''JSONDecodeError''))) \<rparr>"

definition good_remote :: remote where
  "good_remote = \<lparr> item_detail = (\<lambda>cs p i. Inr (U ''d'')), version_update = (\<lambda>cs p t d. None) \<rparr>"






section \<open>Properties of the key normalizer\<close>

subsection \<open>replace_marks\<close>

lemma py_replace_Nil [simp]: "py_replace old new [] = []"
  by (simp add: py_replace_def)

lemma py_replace_Cons [simp]:
  "py_replace old new (c # cs) = (if c = old then new else [c]) @ py_replace old new cs"
  by (simp add: py_replace_def)

lemma py_replace_append [simp]:
  "py_replace old new (xs @ ys) = py_replace old new xs @ py_replace old new ys"
  by (simp add: py_replace_def)

lemma replace_marks_Nil [simp]: "replace_marks [] = []"
  by (simp add: replace_marks_def)







subsection \<open>re_sub_ws\<close>




lemma re_sub_ws_hd: "s \<noteq> [] \<Longrightarrow> \<not> is_space (hd s) \<Longrightarrow> re_sub_ws s \<noteq> [] \<and> hd (re_sub_ws s) = hd s"
  by (cases s) auto










subsection \<open>py_strip\<close>






subsection \<open>commutation with a character map\<close>













subsection \<open>runs of whitespace\<close>




subsection \<open>the ASCII runtime\<close>





lemmas nsimps = normalize_name_def normalize_base_def py_str_def py_lower_def is_ascii_def ascii_lower_def
  py_strip_def replace_marks_def py_replace_def is_space_def splitext_def rfind_def Let_def




section \<open>Properties of the sheet selector\<close>

lemma scan_sheet_score:
  "scan_sheet rt item b = (case sheet_score rt item of
       None \<Rightarrow> b
     | Some p \<Rightarrow> if beats p (best_rows b, best_desc_rows b) then picked (the item) p else b)"
  by (auto simp: scan_sheet_def sheet_score_def beats_def picked_def Let_def
      split: option.splits sum.splits prod.splits)

lemma sheet_score_Some: "sheet_score rt item = Some p \<Longrightarrow> \<exists>ws. item = Some ws"
  by (cases item) (simp_all add: sheet_score_def)

lemma scan_sheets_snoc: "scan_sheets rt (xs @ [x]) b = scan_sheet rt x (scan_sheets rt xs b)"
  by (induction xs arbitrary: b) simp_all

lemma beats_trans: "beats p q \<Longrightarrow> beats q r \<Longrightarrow> beats p r"
  by (auto simp: beats_def)

lemma beats_total: "\<not> beats p q \<Longrightarrow> p \<noteq> q \<Longrightarrow> beats q p"
  by (auto simp: beats_def prod_eq_iff)

lemma beats_irrefl: "\<not> beats p p"
  by (simp add: beats_def)

lemma beats_zero: "beats p (0, 0) \<longleftrightarrow> p \<noteq> (0, 0)"
  by (auto simp: beats_def prod_eq_iff)

lemma selected_scan: "selected rt items (scan_sheets rt items best_init)"
proof (induction items rule: rev_induct)
  case Nil
  show ?case by (simp add: selected_def)
next
  case (snoc x xs)
  let ?b = "scan_sheets rt xs best_init"
  have step: "scan_sheets rt (xs @ [x]) best_init = scan_sheet rt x ?b" by (rule scan_sheets_snoc)
  show ?case
  proof (cases "sheet_score rt x")
    case None
    then have same: "scan_sheet rt x ?b = ?b" by (simp add: scan_sheet_score)
    from snoc show ?thesis unfolding step same selected_def
      using None by (auto simp: nth_append less_Suc_eq)
  next
    case (Some p)
    then obtain ws where x: "x = Some ws" using sheet_score_Some by blast
    from snoc consider
        (A) "?b = best_init" "\<forall>j < length xs. \<forall>q. sheet_score rt (xs ! j) = Some q \<longrightarrow> q = (0, 0)"
      | (B) i ws' p' where "i < length xs" "xs ! i = Some ws'" "sheet_score rt (xs ! i) = Some p'"
          "p' \<noteq> (0, 0)" "?b = picked ws' p'"
          "\<forall>j < length xs. \<forall>q. sheet_score rt (xs ! j) = Some q \<longrightarrow> \<not> beats q p'"
          "\<forall>j < i. \<forall>q. sheet_score rt (xs ! j) = Some q \<longrightarrow> beats p' q"
      unfolding selected_def by blast
    then show ?thesis
    proof cases
      case A
      show ?thesis
      proof (cases "p = (0, 0)")
        case True
        then have "scan_sheet rt x ?b = best_init"
          using Some A(1) by (simp add: scan_sheet_score best_init_def beats_def)
        then show ?thesis unfolding step selected_def
          using A(2) Some True by (auto simp: nth_append less_Suc_eq)
      next
        case False
        then have new: "scan_sheet rt x ?b = picked ws p"
          using Some A(1) x by (simp add: scan_sheet_score best_init_def beats_zero)
        have "\<forall>j < length (xs @ [x]). \<forall>q. sheet_score rt ((xs @ [x]) ! j) = Some q \<longrightarrow> \<not> beats q p"
          using A(2) Some False by (auto simp: nth_append less_Suc_eq beats_def)
        moreover have "\<forall>j < length xs. \<forall>q. sheet_score rt ((xs @ [x]) ! j) = Some q \<longrightarrow> beats p q"
          using A(2) False by (auto simp: nth_append beats_zero)
        ultimately show ?thesis unfolding step new selected_def
          using Some False x by (intro disjI2 exI[of _ "length xs"]) auto
      qed
    next
      case B
      have cur: "(best_rows ?b, best_desc_rows ?b) = p'" using B(5) by (simp add: picked_def)
      show ?thesis
      proof (cases "beats p p'")
        case True
        then have new: "scan_sheet rt x ?b = picked ws p"
          using Some x cur by (simp add: scan_sheet_score)
        have pz: "p \<noteq> (0, 0)" using True by (auto simp: beats_def)
        have 1: "\<forall>j < length (xs @ [x]). \<forall>q. sheet_score rt ((xs @ [x]) ! j) = Some q \<longrightarrow> \<not> beats q p"
        proof (intro allI impI)
          fix j q assume j: "j < length (xs @ [x])" and q: "sheet_score rt ((xs @ [x]) ! j) = Some q"
          show "\<not> beats q p"
          proof (cases "j < length xs")
            case True
            then have "(xs @ [x]) ! j = xs ! j" by (simp add: nth_append)
            with q have "sheet_score rt (xs ! j) = Some q" by simp
            with B(6) True have "\<not> beats q p'" by blast
            then show ?thesis using \<open>beats p p'\<close> by (auto simp: beats_def)
          next
            case False
            with j q Some have "q = p" by (auto simp: nth_append)
            then show ?thesis by (simp add: beats_irrefl)
          qed
        qed
        have 2: "\<forall>j < length xs. \<forall>q. sheet_score rt ((xs @ [x]) ! j) = Some q \<longrightarrow> beats p q"
        proof (intro allI impI)
          fix j q assume j: "j < length xs" and q: "sheet_score rt ((xs @ [x]) ! j) = Some q"
          from j have "(xs @ [x]) ! j = xs ! j" by (simp add: nth_append)
          with q have "sheet_score rt (xs ! j) = Some q" by simp
          with B(6) j have "\<not> beats q p'" by blast
          then show "beats p q" using \<open>beats p p'\<close> by (auto simp: beats_def)
        qed
        show ?thesis unfolding step new selected_def
          using 1 2 Some pz x by (intro disjI2 exI[of _ "length xs"]) auto
      next
        case False
        then have same: "scan_sheet rt x ?b = ?b"
          using Some cur by (simp add: scan_sheet_score)
        have 1: "\<forall>j < length (xs @ [x]). \<forall>q. sheet_score rt ((xs @ [x]) ! j) = Some q \<longrightarrow> \<not> beats q p'"
          using B(6) Some False by (auto simp: nth_append less_Suc_eq)
        have 2: "\<forall>j < i. \<forall>q. sheet_score rt ((xs @ [x]) ! j) = Some q \<longrightarrow> beats p' q"
          using B(7) B(1) by (auto simp: nth_append)
        show ?thesis unfolding step same selected_def
          using 1 2 B(1-5) by (intro disjI2 exI[of _ i]) (auto simp: nth_append)
      qed
    qed
  qed
qed

lemma count_rows_filter:
  "count_rows rt ws vals rs (a, b) = Inr (a', b') \<Longrightarrow>
   a' = a + length (filter (\<lambda>r. nonblank rt (count_cell ws vals r (lower1 vals)) = Inr True) rs)
   \<and> b' = b + (if lower1 vals + 1 \<le> upper1 vals
               then length (filter (\<lambda>r. nonblank rt (count_cell ws vals r (lower1 vals + 1)) = Inr True) rs)
               else 0)"
proof (induction rs arbitrary: a b)
  case Nil
  then show ?case by simp
next
  case (Cons r rs)
  from Cons.prems obtain x where x: "nonblank rt (count_cell ws vals r (lower1 vals)) = Inr x"
    by (cases "nonblank rt (count_cell ws vals r (lower1 vals))") (simp_all add: Let_def)
  show ?case
  proof (cases "lower1 vals + 1 \<le> upper1 vals")
    case True
    from Cons.prems x True obtain y where y: "nonblank rt (count_cell ws vals r (lower1 vals + 1)) = Inr y"
      by (cases "nonblank rt (count_cell ws vals r (lower1 vals + 1))") (simp_all add: Let_def)
    from Cons.prems x y True
    have "count_rows rt ws vals rs (if x then a + 1 else a, if y then b + 1 else b) = Inr (a', b')"
      by (simp add: Let_def)
    from Cons.IH[OF this] x y True show ?thesis by (cases x; cases y) simp_all
  next
    case False
    from Cons.prems x False
    have "count_rows rt ws vals rs (if x then a + 1 else a, b) = Inr (a', b')"
      by (simp add: Let_def)
    from Cons.IH[OF this] x False show ?thesis by (cases x) simp_all
  qed
qed

lemma selected_none:
  assumes "\<forall>x \<in> set items. \<forall>q. sheet_score rt x = Some q \<longrightarrow> q = (0, 0)"
  shows "scan_sheets rt items best_init = best_init"
proof -
  from selected_scan[of rt items] show ?thesis unfolding selected_def
  proof
    assume "scan_sheets rt items best_init = best_init \<and>
      (\<forall>j<length items. \<forall>q. sheet_score rt (items ! j) = Some q \<longrightarrow> q = (0, 0))"
    then show ?thesis by simp
  next
    assume "\<exists>i<length items. \<exists>ws p. items ! i = Some ws \<and> sheet_score rt (items ! i) = Some p
        \<and> p \<noteq> (0, 0) \<and> scan_sheets rt items best_init = picked ws p
        \<and> (\<forall>j<length items. \<forall>q. sheet_score rt (items ! j) = Some q \<longrightarrow> \<not> beats q p)
        \<and> (\<forall>j<i. \<forall>q. sheet_score rt (items ! j) = Some q \<longrightarrow> beats p q)"
    then obtain i p where "i < length items" "sheet_score rt (items ! i) = Some p" "p \<noteq> (0, 0)"
      by blast
    with assms have False by (metis nth_mem)
    then show ?thesis ..
  qed
qed

lemma selected_some:
  assumes "x \<in> set items" "sheet_score rt x = Some q" "q \<noteq> (0, 0)"
  shows "\<exists>i<length items. \<exists>ws p. items ! i = Some ws \<and> sheet_score rt (items ! i) = Some p
        \<and> p \<noteq> (0, 0) \<and> scan_sheets rt items best_init = picked ws p
        \<and> (\<forall>j<length items. \<forall>q. sheet_score rt (items ! j) = Some q \<longrightarrow> \<not> beats q p)
        \<and> (\<forall>j<i. \<forall>q. sheet_score rt (items ! j) = Some q \<longrightarrow> beats p q)"
proof -
  from assms(1) obtain k where k: "k < length items" "items ! k = x" by (auto simp: in_set_conv_nth)
  from selected_scan[of rt items] show ?thesis unfolding selected_def
  proof
    assume "scan_sheets rt items best_init = best_init \<and>
      (\<forall>j<length items. \<forall>q. sheet_score rt (items ! j) = Some q \<longrightarrow> q = (0, 0))"
    with k assms(2,3) have False by blast
    then show ?thesis ..
  qed
qed

text \<open>
  Claim C3, as amended. Over the sheets of a workbook scanned in order, with
  \<open>desc_rows\<close> the number of non-empty second-column cells and \<open>rows\<close> the number of
  non-empty first-column cells in the rows after the first: if some readable,
  non-degenerate sheet has a count above zero, the selection picks a sheet whose
  \<open>desc_rows\<close> is greatest, among those one whose \<open>rows\<close> is greatest, and among those
  the earliest; if every such sheet has both counts zero (a header row alone, an empty
  sheet), no sheet is selected. Unreadable and degenerate sheets are never selected.
\<close>

theorem select_sheet_greatest_first:
  "((\<forall>x \<in> set (workbook_sheets wb). \<forall>q. sheet_score rt x = Some q \<longrightarrow> q = (0, 0)) \<longrightarrow>
       select_sheet rt wb = best_init)
   \<and> ((\<exists>x \<in> set (workbook_sheets wb). \<exists>q. sheet_score rt x = Some q \<and> q \<noteq> (0, 0)) \<longrightarrow>
       (\<exists>i < length (workbook_sheets wb). \<exists>ws rows desc_rows.
            workbook_sheets wb ! i = Some ws
          \<and> sheet_score rt (Some ws) = Some (rows, desc_rows)
          \<and> select_sheet rt wb = \<lparr> best_sheet = Some ws, best_values = Some (coerce_to_2d (value2 ws)),
                                    best_rows = rows, best_desc_rows = desc_rows \<rparr>
          \<and> (\<forall>j < length (workbook_sheets wb). \<forall>r d.
                sheet_score rt (workbook_sheets wb ! j) = Some (r, d) \<longrightarrow>
                d < desc_rows \<or> (d = desc_rows \<and> r \<le> rows))
          \<and> (\<forall>j < i. \<forall>r d.
                sheet_score rt (workbook_sheets wb ! j) = Some (r, d) \<longrightarrow>
                d < desc_rows \<or> (d = desc_rows \<and> r < rows))))
   \<and> (sheet_score rt (Some ws') = Some (rows', desc_rows') \<longrightarrow>
        \<not> (upper0 (coerce_to_2d (value2 ws')) < lower0 (coerce_to_2d (value2 ws'))
            \<or> upper1 (coerce_to_2d (value2 ws')) < lower1 (coerce_to_2d (value2 ws')))
        \<and> rows' = length (filter
              (\<lambda>r. nonblank rt (count_cell ws' (coerce_to_2d (value2 ws')) r
                      (lower1 (coerce_to_2d (value2 ws')))) = Inr True)
              [lower0 (coerce_to_2d (value2 ws')) + 1 .. upper0 (coerce_to_2d (value2 ws'))])
        \<and> desc_rows' =
            (if lower1 (coerce_to_2d (value2 ws')) + 1 \<le> upper1 (coerce_to_2d (value2 ws'))
             then length (filter
              (\<lambda>r. nonblank rt (count_cell ws' (coerce_to_2d (value2 ws')) r
                      (lower1 (coerce_to_2d (value2 ws')) + 1)) = Inr True)
              [lower0 (coerce_to_2d (value2 ws')) + 1 .. upper0 (coerce_to_2d (value2 ws'))])
             else 0))"
proof (intro conjI impI)
  assume "\<forall>x \<in> set (workbook_sheets wb). \<forall>q. sheet_score rt x = Some q \<longrightarrow> q = (0, 0)"
  then show "select_sheet rt wb = best_init"
    unfolding select_sheet_def by (rule selected_none)
next
  let ?items = "workbook_sheets wb"
  assume "\<exists>x \<in> set ?items. \<exists>q. sheet_score rt x = Some q \<and> q \<noteq> (0, 0)"
  then obtain x q where "x \<in> set ?items" "sheet_score rt x = Some q" "q \<noteq> (0, 0)" by blast
  from selected_some[OF this] obtain i ws p where
    i: "i < length ?items" and ws: "?items ! i = Some ws" and sc: "sheet_score rt (?items ! i) = Some p"
    and b: "scan_sheets rt ?items best_init = picked ws p"
    and mx: "\<forall>j<length ?items. \<forall>q. sheet_score rt (?items ! j) = Some q \<longrightarrow> \<not> beats q p"
    and fs: "\<forall>j<i. \<forall>q. sheet_score rt (?items ! j) = Some q \<longrightarrow> beats p q"
    by blast
  have 1: "sheet_score rt (Some ws) = Some (fst p, snd p)" using sc ws by simp
  have 2: "select_sheet rt wb = \<lparr> best_sheet = Some ws, best_values = Some (coerce_to_2d (value2 ws)),
                                    best_rows = fst p, best_desc_rows = snd p \<rparr>"
    using b by (simp add: select_sheet_def picked_def)
  have 3: "\<forall>j < length ?items. \<forall>r d. sheet_score rt (?items ! j) = Some (r, d) \<longrightarrow>
                d < snd p \<or> (d = snd p \<and> r \<le> fst p)"
    using mx by (fastforce simp: beats_def)
  have 4: "\<forall>j < i. \<forall>r d. sheet_score rt (?items ! j) = Some (r, d) \<longrightarrow>
                d < snd p \<or> (d = snd p \<and> r < fst p)"
    using fs by (fastforce simp: beats_def)
  from i ws 1 2 3 4
  show "\<exists>i < length ?items. \<exists>ws rows desc_rows.
            ?items ! i = Some ws
          \<and> sheet_score rt (Some ws) = Some (rows, desc_rows)
          \<and> select_sheet rt wb = \<lparr> best_sheet = Some ws, best_values = Some (coerce_to_2d (value2 ws)),
                                    best_rows = rows, best_desc_rows = desc_rows \<rparr>
          \<and> (\<forall>j < length ?items. \<forall>r d.
                sheet_score rt (?items ! j) = Some (r, d) \<longrightarrow>
                d < desc_rows \<or> (d = desc_rows \<and> r \<le> rows))
          \<and> (\<forall>j < i. \<forall>r d.
                sheet_score rt (?items ! j) = Some (r, d) \<longrightarrow>
                d < desc_rows \<or> (d = desc_rows \<and> r < rows))"
    by blast
next
  assume a: "sheet_score rt (Some ws') = Some (rows', desc_rows')"
  let ?v = "coerce_to_2d (value2 ws')"
  from a show "\<not> (upper0 ?v < lower0 ?v \<or> upper1 ?v < lower1 ?v)"
    by (auto simp: sheet_score_def Let_def split: if_splits)
  from a have c: "count_rows rt ws' ?v [lower0 ?v + 1 .. upper0 ?v] (0, 0) = Inr (rows', desc_rows')"
    by (auto simp: sheet_score_def Let_def split: if_splits sum.splits)
  from count_rows_filter[OF c]
  show "rows' = length (filter (\<lambda>r. nonblank rt (count_cell ws' ?v r (lower1 ?v)) = Inr True)
              [lower0 ?v + 1 .. upper0 ?v])"
    by simp
  from count_rows_filter[OF c]
  show "desc_rows' = (if lower1 ?v + 1 \<le> upper1 ?v
             then length (filter (\<lambda>r. nonblank rt (count_cell ws' ?v r (lower1 ?v + 1)) = Inr True)
              [lower0 ?v + 1 .. upper0 ?v])
             else 0)"
    by simp
qed

lemma table_vals: "coerce_to_2d (value2 (table_sheet name n)) = Array2D 1 (n + 1) 1 2 (\<lambda>r c. PStr (U ''x''))"
  by (simp add: table_sheet_def coerce_to_2d_def)

lemmas score_simps = sheet_score_def table_sheet_def coerce_to_2d_def nonblank_def count_cell_def
  arr_get_def py_str_def py_strip_def is_space_def Let_def

lemma table_score0: "sheet_score ascii_rt (Some (table_sheet name 0)) = Some (0, 0)"
  by (simp add: score_simps)

lemma table_score1: "sheet_score ascii_rt (Some (table_sheet name 1)) = Some (1, 1)"
  by (simp add: score_simps)

lemma tie_sheets:
  "workbook_sheets tie_book
     = [Some (table_sheet ''S1'' 0), Some (table_sheet ''S2'' 1), Some (table_sheet ''S3'' 1)]"
  by (simp add: workbook_sheets_def tie_book_def upto.simps)

text \<open>
  The amended claim C3 on a workbook whose sheets have the counts \<open>(0, 0)\<close>,
  \<open>(1, 1)\<close> and \<open>(1, 1)\<close>: the second sheet, the first of the two that tie, is selected.
\<close>

theorem select_sheet_greatest_first_witness:
  "select_sheet ascii_rt tie_book
     = \<lparr> best_sheet = Some (table_sheet ''S2'' 1),
         best_values = Some (coerce_to_2d (value2 (table_sheet ''S2'' 1))),
         best_rows = 1, best_desc_rows = 1 \<rparr>"
proof -
  let ?items = "workbook_sheets tie_book"
  have s0: "sheet_score ascii_rt (?items ! 0) = Some (0, 0)" unfolding tie_sheets using table_score0 by simp
  have s1: "sheet_score ascii_rt (?items ! 1) = Some (1, 1)" unfolding tie_sheets using table_score1 by simp
  have s2: "sheet_score ascii_rt (?items ! 2) = Some (1, 1)" unfolding tie_sheets using table_score1 by simp
  have len: "length ?items = 3" unfolding tie_sheets by simp
  have "\<exists>x \<in> set ?items. \<exists>q. sheet_score ascii_rt x = Some q \<and> q \<noteq> (0, 0)"
    unfolding tie_sheets using table_score1 by simp
  with select_sheet_greatest_first[of tie_book ascii_rt, THEN conjunct2, THEN conjunct1]
  obtain i ws rows desc_rows where
    i: "i < length ?items" and ws: "?items ! i = Some ws"
    and sc: "sheet_score ascii_rt (Some ws) = Some (rows, desc_rows)"
    and sel: "select_sheet ascii_rt tie_book = \<lparr> best_sheet = Some ws,
        best_values = Some (coerce_to_2d (value2 ws)), best_rows = rows, best_desc_rows = desc_rows \<rparr>"
    and mx: "\<forall>j < length ?items. \<forall>r d. sheet_score ascii_rt (?items ! j) = Some (r, d) \<longrightarrow>
                d < desc_rows \<or> (d = desc_rows \<and> r \<le> rows)"
    and fs: "\<forall>j < i. \<forall>r d. sheet_score ascii_rt (?items ! j) = Some (r, d) \<longrightarrow>
                d < desc_rows \<or> (d = desc_rows \<and> r < rows)"
    by blast
  from i len have "i = 0 \<or> i = 1 \<or> i = 2" by auto
  then have i1: "i = 1"
  proof (elim disjE)
    assume i0: "i = 0"
    with ws sc s0 have "rows = 0 \<and> desc_rows = 0" by simp
    moreover from mx[rule_format, of 1 1 1] len s1
    have "1 < desc_rows \<or> (1 = desc_rows \<and> 1 \<le> rows)" by simp
    ultimately show ?thesis by simp
  next
    assume "i = 1" then show ?thesis .
  next
    assume i2: "i = 2"
    with ws sc s2 have "rows = 1 \<and> desc_rows = 1" by simp
    moreover from fs[rule_format, of 1 1 1] i2 s1
    have "1 < desc_rows \<or> (1 = desc_rows \<and> 1 < rows)" by simp
    ultimately show ?thesis by simp
  qed
  with ws have w: "ws = table_sheet ''S2'' 1" unfolding tie_sheets by simp
  with sc table_score1[of "''S2''"] have "rows = 1 \<and> desc_rows = 1" by simp
  with sel w show ?thesis by simp
qed

text \<open>
  Claim C3 as stated fails on a workbook whose only sheet holds a header row, and on one
  whose only sheet has a data row that is filled in the third column only: each sheet has
  a proper range, so it is not degenerate, its two counts are zero, and the selection
  picks no sheet.
\<close>

theorem select_sheet_zero_counts_counterexample:
  "\<not> (upper0 (coerce_to_2d (value2 (table_sheet ''S1'' 0))) < lower0 (coerce_to_2d (value2 (table_sheet ''S1'' 0)))
       \<or> upper1 (coerce_to_2d (value2 (table_sheet ''S1'' 0))) < lower1 (coerce_to_2d (value2 (table_sheet ''S1'' 0))))
   \<and> workbook_sheets (one_sheet (table_sheet ''S1'' 0)) = [Some (table_sheet ''S1'' 0)]
   \<and> best_sheet (select_sheet ascii_rt (one_sheet (table_sheet ''S1'' 0))) = None
   \<and> \<not> (upper0 (coerce_to_2d (value2 third_column_sheet)) < lower0 (coerce_to_2d (value2 third_column_sheet))
       \<or> upper1 (coerce_to_2d (value2 third_column_sheet)) < lower1 (coerce_to_2d (value2 third_column_sheet)))
   \<and> workbook_sheets (one_sheet third_column_sheet) = [Some third_column_sheet]
   \<and> best_sheet (select_sheet ascii_rt (one_sheet third_column_sheet)) = None"
proof -
  have 1: "workbook_sheets (one_sheet ws) = [Some ws]" for ws
    by (simp add: workbook_sheets_def one_sheet_def upto.simps)
  have "scan_sheet ascii_rt (Some (table_sheet ''S1'' 0)) best_init = best_init"
    using table_score0[of "''S1''"] by (simp add: scan_sheet_score beats_def best_init_def)
  then have 2: "best_sheet (select_sheet ascii_rt (one_sheet (table_sheet ''S1'' 0))) = None"
    unfolding select_sheet_def 1 by (simp add: best_init_def)
  have v: "coerce_to_2d (value2 third_column_sheet) = Array2D 1 2 1 3 (\<lambda>r c.
       if r = 1 then PStr (U ''h'') else if c = 3 then PStr (U ''x'') else PNone)"
    by (simp add: third_column_sheet_def coerce_to_2d_def)
  have "sheet_score ascii_rt (Some third_column_sheet) = Some (0, 0)"
    by (simp add: sheet_score_def third_column_sheet_def coerce_to_2d_def nonblank_def count_cell_def
        arr_get_def py_str_def py_strip_def Let_def)
  then have "scan_sheet ascii_rt (Some third_column_sheet) best_init = best_init"
    by (simp add: scan_sheet_score beats_def best_init_def)
  then have 3: "best_sheet (select_sheet ascii_rt (one_sheet third_column_sheet)) = None"
    unfolding select_sheet_def 1 by (simp add: best_init_def)
  show ?thesis using 1 2 3 by (simp add: table_vals v)
qed

section \<open>Properties of the spreadsheet reader\<close>





section \<open>Properties of the row index\<close>

lemma dict_get_dict_set:
  "dict_get (dict_set d k v) k' = (if k' = k then Some v else dict_get d k')"
  by (induction d k v rule: dict_set.induct) (auto simp: dict_get_def)

lemma dict_get_add_result:
  "dict_get (add_result result key row) k =
     (if k = key \<and> key \<noteq> [] \<and> dict_get result key = None then Some row else dict_get result k)"
  by (simp add: add_result_def dict_get_dict_set)

lemma dict_get_register_row:
  "dict_get (register_row rt result row) k =
     (case dict_get result k of
         Some r \<Rightarrow> Some r
       | None \<Rightarrow> if k \<noteq> [] \<and> has_key rt k row then Some row else None)"
  by (auto simp: register_row_def dict_get_add_result has_key_def split: option.splits)

lemma dict_get_register_rows:
  "dict_get (foldl (register_row rt) result rs) k =
     (case dict_get result k of
         Some r \<Rightarrow> Some r
       | None \<Rightarrow> if k = [] then None else find (has_key rt k) rs)"
  by (induction rs arbitrary: result) (auto simp: dict_get_register_row split: option.splits)

lemma read_rows_accepted:
  "read_rows rt sh vals di rows (result, diag) = Inr (result', diag') \<Longrightarrow>
   result' = foldl (register_row rt) result (accepted_rows rt sh vals di rows)"
proof (induction rows arbitrary: result diag)
  case Nil
  then show ?case by simp
next
  case (Cons row rest)
  show ?case
  proof (cases "read_file_name rt sh vals row")
    case (Inl e)
    with Cons.prems show ?thesis by simp
  next
    case (Inr o1)
    show ?thesis
    proof (cases o1)
      case None
      with Inr Cons show ?thesis by simp
    next
      case (Some p)
      obtain file_name file_val where p: "p = (file_name, file_val)" by (cases p)
      show ?thesis
      proof (cases "read_description rt sh vals di row")
        case (Inl e)
        with Inr Some p Cons.prems show ?thesis by simp
      next
        case d: (Inr description)
        from Cons.prems Inr Some p d obtain dg where
          "read_rows rt sh vals di rest
             (register_row rt result \<lparr> FileName = file_name, Description = description \<rparr>, dg)
           = Inr (result', diag')"
          by (simp add: Let_def)
        from Cons.IH[OF this] Inr Some p d show ?thesis by simp
      qed
    qed
  qed
qed

text \<open>
  Claim C4, as amended. In the index that the row loop builds from an empty index, a
  key is never empty, and the entry of a non-empty key is the first accepted data row, in
  row order, one of whose two keys (\<open>normalize(file_name)\<close>,
  \<open>normalize_base(file_name)\<close>) it is: every accepted row is found under each of its
  non-empty keys unless an earlier row has taken the key, and a later registration never
  changes an entry that is present.
\<close>

theorem row_index_first_registration_wins:
  assumes "read_rows rt sh vals di rows ([], diag) = Inr (result, diag')"
  shows "dict_get result k =
           (if k = [] then None else find (has_key rt k) (accepted_rows rt sh vals di rows))
       \<and> (row \<in> set (accepted_rows rt sh vals di rows) \<and> has_key rt k row \<and> k \<noteq> [] \<longrightarrow>
            (\<exists>i < length (accepted_rows rt sh vals di rows).
               dict_get result k = Some (accepted_rows rt sh vals di rows ! i)
               \<and> has_key rt k (accepted_rows rt sh vals di rows ! i)
               \<and> (\<forall>j < i. \<not> has_key rt k (accepted_rows rt sh vals di rows ! j))))
       \<and> dict_get (register_row rt result row') k =
           (case dict_get result k of
               Some r \<Rightarrow> Some r
             | None \<Rightarrow> if k \<noteq> [] \<and> has_key rt k row' then Some row' else None)"
proof -
  let ?acc = "accepted_rows rt sh vals di rows"
  have r: "result = foldl (register_row rt) [] ?acc"
    using assms by (rule read_rows_accepted)
  have 1: "dict_get result k = (if k = [] then None else find (has_key rt k) ?acc)"
    unfolding r by (simp add: dict_get_register_rows) (simp add: dict_get_def)
  have 2: "\<exists>i < length ?acc. dict_get result k = Some (?acc ! i) \<and> has_key rt k (?acc ! i)
               \<and> (\<forall>j < i. \<not> has_key rt k (?acc ! j))"
    if "row \<in> set ?acc" "has_key rt k row" "k \<noteq> []"
  proof -
    from that obtain x where "find (has_key rt k) ?acc = Some x"
      by (cases "find (has_key rt k) ?acc") (auto simp: find_None_iff)
    then show ?thesis using 1 that(3) by (auto simp: find_Some_iff)
  qed
  have 3: "dict_get (register_row rt result row') k =
           (case dict_get result k of
               Some r \<Rightarrow> Some r
             | None \<Rightarrow> if k \<noteq> [] \<and> has_key rt k row' then Some row' else None)"
    by (rule dict_get_register_row)
  from 1 2 3 show ?thesis by blast
qed


lemmas cell_simps = read_file_name_def read_description_def safe_get_def safe_get_text_def arr_get_def
  str_strip_def py_str_def py_strip_def is_space_def

lemma plan_vals: "coerce_to_2d (value2 plan_sheet) = Array2D 1 3 1 2 (\<lambda>r c.
       if r = 1 then (if c = 1 then PStr (U ''File'') else PStr (U ''Description''))
       else if r = 2 then (if c = 1 then PStr (U ''Plan-A1.dwg'') else PStr (U ''First floor plan''))
       else (if c = 1 then PStr (U ''plan-a1'') else PStr (U ''Duplicate'')))"
  by (simp add: plan_sheet_def coerce_to_2d_def)

lemma plan_name2: "read_file_name ascii_rt (Some plan_sheet) (coerce_to_2d (value2 plan_sheet)) 2
   = Inr (Some (U ''Plan-A1.dwg'', PStr (U ''Plan-A1.dwg'')))"
  unfolding plan_vals by (simp add: cell_simps)

lemma plan_name3: "read_file_name ascii_rt (Some plan_sheet) (coerce_to_2d (value2 plan_sheet)) 3
   = Inr (Some (U ''plan-a1'', PStr (U ''plan-a1'')))"
  unfolding plan_vals by (simp add: cell_simps)

lemma plan_desc2: "read_description ascii_rt (Some plan_sheet) (coerce_to_2d (value2 plan_sheet)) 2 2
   = Inr (U ''First floor plan'')"
  unfolding plan_vals by (simp add: cell_simps)

lemma plan_desc3: "read_description ascii_rt (Some plan_sheet) (coerce_to_2d (value2 plan_sheet)) 2 3
   = Inr (U ''Duplicate'')"
  unfolding plan_vals by (simp add: cell_simps)

lemma plan_accepted:
  "accepted_rows ascii_rt (Some plan_sheet) (coerce_to_2d (value2 plan_sheet)) 2 [2, 3]
     = [\<lparr> FileName = U ''Plan-A1.dwg'', Description = U ''First floor plan'' \<rparr>,
        \<lparr> FileName = U ''plan-a1'', Description = U ''Duplicate'' \<rparr>]"
  unfolding accepted_rows.simps plan_name2 plan_name3 plan_desc2 plan_desc3 by simp

lemma plan_run:
  "\<exists>R D. read_rows ascii_rt (Some plan_sheet) (coerce_to_2d (value2 plan_sheet)) 2 [2, 3] ([], diag_init)
     = Inr (R, D)"
  unfolding read_rows.simps plan_name2 plan_name3 plan_desc2 plan_desc3 by (simp add: Let_def)

lemma plan_key_full: "normalize_name ascii_rt (PStr (U ''Plan-A1.dwg'')) = U ''plan-a1.dwg''"
  by (simp add: nsimps)

lemma plan_key_base: "normalize_base ascii_rt (PStr (U ''Plan-A1.dwg'')) = U ''plan-a1''"
  by (simp add: nsimps)

text \<open>
  The amended claim C4 on the sheet of the specification's example: the row
  \<open>Plan-A1.dwg\<close> is found under \<open>plan-a1.dwg\<close> and under \<open>plan-a1\<close>, and the later
  row \<open>plan-a1\<close>, whose key is taken, is ignored.
\<close>

theorem row_index_first_registration_wins_witness:
  "dict_get (fst (projr (read_rows ascii_rt (Some plan_sheet) (coerce_to_2d (value2 plan_sheet)) 2 [2, 3] ([], diag_init))))
      (U ''plan-a1'')
     = Some \<lparr> FileName = U ''Plan-A1.dwg'', Description = U ''First floor plan'' \<rparr>
   \<and> dict_get (fst (projr (read_rows ascii_rt (Some plan_sheet) (coerce_to_2d (value2 plan_sheet)) 2 [2, 3] ([], diag_init))))
      (U ''plan-a1.dwg'')
     = Some \<lparr> FileName = U ''Plan-A1.dwg'', Description = U ''First floor plan'' \<rparr>"
proof -
  let ?vals = "coerce_to_2d (value2 plan_sheet)"
  let ?run = "read_rows ascii_rt (Some plan_sheet) ?vals 2 [2, 3] ([], diag_init)"
  let ?row1 = "\<lparr> FileName = U ''Plan-A1.dwg'', Description = U ''First floor plan'' \<rparr>"
  from plan_run obtain R D where run: "?run = Inr (R, D)" by blast
  have k1: "has_key ascii_rt (U ''plan-a1'') ?row1"
    using plan_key_base by (simp add: has_key_def)
  have k2: "has_key ascii_rt (U ''plan-a1.dwg'') ?row1"
    using plan_key_full by (simp add: has_key_def)
  have f1: "dict_get R (U ''plan-a1'') = (if U ''plan-a1'' = [] then None
      else find (has_key ascii_rt (U ''plan-a1'')) [?row1, \<lparr> FileName = U ''plan-a1'', Description = U ''Duplicate'' \<rparr>])"
    using row_index_first_registration_wins[OF run, of "U ''plan-a1''", THEN conjunct1]
    unfolding plan_accepted .
  have f2: "dict_get R (U ''plan-a1.dwg'') = (if U ''plan-a1.dwg'' = [] then None
      else find (has_key ascii_rt (U ''plan-a1.dwg'')) [?row1, \<lparr> FileName = U ''plan-a1'', Description = U ''Duplicate'' \<rparr>])"
    using row_index_first_registration_wins[OF run, of "U ''plan-a1.dwg''", THEN conjunct1]
    unfolding plan_accepted .
  have "dict_get R (U ''plan-a1'') = Some ?row1" using f1 k1 by simp
  moreover have "dict_get R (U ''plan-a1.dwg'') = Some ?row1" using f2 k2 by simp
  ultimately show ?thesis unfolding run by simp
qed

lemma marks_vals: "coerce_to_2d (value2 marks_sheet) = Array2D 1 2 1 2 (\<lambda>r c.
       if r = 1 then (if c = 1 then PStr (U ''File'') else PStr (U ''Description''))
       else (if c = 1 then PStr [8206] else PStr (U ''Site plan'')))"
  by (simp add: marks_sheet_def coerce_to_2d_def)

lemma marks_name2: "read_file_name ascii_rt (Some marks_sheet) (coerce_to_2d (value2 marks_sheet)) 2
   = Inr (Some ([8206], PStr [8206]))"
  unfolding marks_vals by (simp add: cell_simps)

lemma marks_desc2: "read_description ascii_rt (Some marks_sheet) (coerce_to_2d (value2 marks_sheet)) 2 2
   = Inr (U ''Site plan'')"
  unfolding marks_vals by (simp add: cell_simps)

lemma marks_key_full: "normalize_name ascii_rt (PStr [8206]) = []"
  by (simp add: nsimps)

lemma marks_key_base: "normalize_base ascii_rt (PStr [8206]) = []"
  by (simp add: normalize_base_def marks_key_full)

lemma marks_register: "register_row ascii_rt [] \<lparr> FileName = [8206], Description = d \<rparr> = []"
  using marks_key_full marks_key_base by (simp add: register_row_def add_result_def)

text \<open>
  Claim C4 as stated fails on a data row whose file name is the single mark U+200E: the
  row is accepted, both its keys are empty, and the index built from it has no entry.
\<close>

theorem row_index_empty_key_counterexample:
  "accepted_rows ascii_rt (Some marks_sheet) (coerce_to_2d (value2 marks_sheet)) 2 [2]
     = [\<lparr> FileName = [8206], Description = U ''Site plan'' \<rparr>]
   \<and> fst (projr (read_rows ascii_rt (Some marks_sheet) (coerce_to_2d (value2 marks_sheet)) 2 [2] ([], diag_init))) = []"
  unfolding accepted_rows.simps read_rows.simps marks_name2 marks_desc2
  by (simp add: Let_def marks_register)

section \<open>Properties of the Basic credential\<close>

lemma utf16_units_ascii: "is_ascii s \<Longrightarrow> utf16_units s = s"
  by (induction s) (simp_all add: utf16_units_def is_ascii_def)

lemma utf8_encode_ascii: "is_ascii s \<Longrightarrow> utf8_encode s = s"
  by (induction s) (simp_all add: utf8_encode_def is_ascii_def)

lemma ascii_get_bytes_ascii: "is_ascii (ascii_get_bytes s)"
  by (auto simp: ascii_get_bytes_def is_ascii_def list_all_iff)

lemma ascii_get_bytes_id: "is_ascii s \<Longrightarrow> ascii_get_bytes s = s"
  by (simp add: ascii_get_bytes_def utf16_units_ascii) (simp add: is_ascii_def list_all_iff map_idI)

lemma is_ascii_append: "is_ascii (a @ b) = (is_ascii a \<and> is_ascii b)"
  by (simp add: is_ascii_def)

text \<open>
  Claim C9, as amended. The credential is the base64 encoding of the UTF-8 bytes of
  \<open>client_id + ":" + client_secret\<close> after every UTF-16 code unit outside ASCII has been
  replaced by \<open>?\<close>; for a client id and a client secret that are ASCII throughout it is
  the base64 encoding of the UTF-8 bytes of \<open>client_id + ":" + client_secret\<close> itself.
\<close>

theorem basic_auth_ascii_bytes:
  "basic_auth client_id client_secret =
     to_base64 (utf8_encode (map (\<lambda>u. if u < 128 then u else 63)
       (utf16_units (client_id @ U '':'' @ client_secret))))
   \<and> (is_ascii client_id \<and> is_ascii client_secret \<longrightarrow>
        basic_auth client_id client_secret = to_base64 (utf8_encode (client_id @ U '':'' @ client_secret)))"
proof -
  let ?raw = "client_id @ U '':'' @ client_secret"
  have "utf8_encode (ascii_get_bytes ?raw) = ascii_get_bytes ?raw"
    by (rule utf8_encode_ascii) (rule ascii_get_bytes_ascii)
  then have 1: "basic_auth client_id client_secret =
     to_base64 (utf8_encode (map (\<lambda>u. if u < 128 then u else 63) (utf16_units ?raw)))"
    by (simp add: basic_auth_def ascii_get_bytes_def)
  have 2: "basic_auth client_id client_secret = to_base64 (utf8_encode ?raw)"
    if "is_ascii client_id" "is_ascii client_secret"
  proof -
    have "is_ascii (U '':'')" by (simp add: is_ascii_def)
    then have a: "is_ascii ?raw" using that by (simp only: is_ascii_append)
    have "ascii_get_bytes ?raw = utf8_encode ?raw"
      by (simp only: ascii_get_bytes_id[OF a] utf8_encode_ascii[OF a])
    then show ?thesis by (simp only: basic_auth_def Let_def)
  qed
  from 1 2 show ?thesis by blast
qed

text \<open>The amended claim C9 on the credentials \<open>Aladdin\<close> and \<open>open sesame\<close>.\<close>

theorem basic_auth_ascii_bytes_witness:
  "is_ascii (U ''Aladdin'') \<and> is_ascii (U ''open sesame'')
   \<and> basic_auth (U ''Aladdin'') (U ''open sesame'')
       = to_base64 (utf8_encode (U ''Aladdin'' @ U '':'' @ U ''open sesame''))
   \<and> basic_auth (U ''Aladdin'') (U ''open sesame'') = U ''QWxhZGRpbjpvcGVuIHNlc2FtZQ==''"
proof -
  have a: "is_ascii (U ''Aladdin'') \<and> is_ascii (U ''open sesame'')" by (simp add: is_ascii_def)
  have v: "to_base64 (utf8_encode (U ''Aladdin'' @ U '':'' @ U ''open sesame'')) = U ''QWxhZGRpbjpvcGVuIHNlc2FtZQ==''"
    by (simp add: utf8_encode_def b64_char_def)
  have "basic_auth (U ''Aladdin'') (U ''open sesame'')
       = to_base64 (utf8_encode (U ''Aladdin'' @ U '':'' @ U ''open sesame''))"
    using basic_auth_ascii_bytes[of "U ''Aladdin''" "U ''open sesame''", THEN conjunct2] a by (rule mp)
  with a v show ?thesis by (simp only: simp_thms)
qed

text \<open>
  Claim C9 as stated fails on a secret with a character outside ASCII: for the client id
  \<open>id\<close> and the secret \<open>caf\<close> followed by U+00E9 the script sends the base64 of
  \<open>id:caf?\<close>, not of the UTF-8 bytes.
\<close>

theorem basic_auth_utf8_counterexample:
  "basic_auth (U ''id'') (U ''caf'' @ [233])
     \<noteq> to_base64 (utf8_encode (U ''id'' @ U '':'' @ (U ''caf'' @ [233])))"
  by (simp add: basic_auth_def ascii_get_bytes_def utf16_units_def utf8_encode_def b64_char_def)

section \<open>Properties of the authorization-code flow\<close>

text \<open>
  Claim C6, as amended. In a run whose listener and browser start and whose confirmation
  page can be written: without a callback
  within the timeout the call fails with the timeout error; a callback with a non-empty
  \<open>error\<close> parameter fails with the provider error carrying the provider's message,
  whatever its state; otherwise a callback without a code fails with the missing-code
  error; otherwise a callback whose state differs from the generated one fails with the
  state-mismatch error; and the token exchange is reached exactly by a callback with no
  error, a code and the matching state, whose result is then the result of the call. The
  listener is stopped in every case.
\<close>

theorem authenticate_checks:
  assumes "listener_start_raises env = None" and "browser_start_raises env = None"
      and "write_response_raises env = None"
  shows "(arrival env = None \<longrightarrow>
            fst (authenticate env) = Inl (Exception (U ''Login timed out. Please try again.'')))
       \<and> (arrival env = Some cb \<and> cb_error cb = Some e \<and> e \<noteq> [] \<longrightarrow>
            fst (authenticate env) = Inl (Exception (U ''Auth error: '' @ e)))
       \<and> (arrival env = Some cb \<and> cb_error cb \<in> {None, Some []} \<and> cb_code cb \<in> {None, Some []} \<longrightarrow>
            fst (authenticate env) = Inl (Exception (U ''Authorization code missing.'')))
       \<and> (arrival env = Some cb \<and> cb_error cb \<in> {None, Some []} \<and> cb_code cb = Some c \<and> c \<noteq> []
            \<and> cb_state cb \<noteq> Some (new_state env) \<longrightarrow>
            fst (authenticate env) = Inl (Exception (U ''State mismatch. Possible tampering.'')))
       \<and> (arrival env = Some cb \<and> cb_error cb \<in> {None, Some []} \<and> cb_code cb = Some c \<and> c \<noteq> []
            \<and> cb_state cb = Some (new_state env) \<longrightarrow>
            fst (authenticate env) = exchange_code env c \<and> ExchangeCode c \<in> set (snd (authenticate env)))
       \<and> (ExchangeCode c \<in> set (snd (authenticate env)) \<longrightarrow>
            (\<exists>cb'. arrival env = Some cb' \<and> cb_error cb' \<in> {None, Some []} \<and> cb_code cb' = Some c
               \<and> c \<noteq> [] \<and> cb_state cb' = Some (new_state env)))
       \<and> last (snd (authenticate env)) = ListenerStop"
  using assms
  by (auto simp: authenticate_def authenticate_body_def check_callback_def Let_def
      split: option.splits if_splits prod.splits)

text \<open>
  The amended claim C6 on a callback with a code and the generated state, on a timeout and
  on a callback with another state.
\<close>

theorem authenticate_checks_witness:
  "fst (authenticate good_env) = Inr () \<and> ExchangeCode (U ''abc'') \<in> set (snd (authenticate good_env))
   \<and> fst (authenticate (good_env\<lparr> arrival := None \<rparr>)) = Inl (Exception (U ''Login timed out. Please try again.''))
   \<and> fst (authenticate (good_env\<lparr> arrival := Some \<lparr> cb_code = Some (U ''abc''), cb_state = Some (U ''s2''), cb_error = None \<rparr> \<rparr>))
       = Inl (Exception (U ''State mismatch. Possible tampering.''))"
proof -
  have 1: "listener_start_raises good_env = None \<and> browser_start_raises good_env = None
      \<and> write_response_raises good_env = None
      \<and> arrival good_env = Some \<lparr> cb_code = Some (U ''abc''), cb_state = Some (U ''s1''), cb_error = None \<rparr>
      \<and> new_state good_env = U ''s1'' \<and> exchange_code good_env (U ''abc'') = Inr ()"
    by (simp add: good_env_def)
  show ?thesis
    using authenticate_checks[of good_env "\<lparr> cb_code = Some (U ''abc''), cb_state = Some (U ''s1''), cb_error = None \<rparr>" "[]" "U ''abc''"]
      authenticate_checks[of "good_env\<lparr> arrival := None \<rparr>" "\<lparr> cb_code = Some (U ''abc''), cb_state = Some (U ''s1''), cb_error = None \<rparr>" "[]" "U ''abc''"]
      authenticate_checks[of "good_env\<lparr> arrival := Some \<lparr> cb_code = Some (U ''abc''), cb_state = Some (U ''s2''), cb_error = None \<rparr> \<rparr>"
         "\<lparr> cb_code = Some (U ''abc''), cb_state = Some (U ''s2''), cb_error = None \<rparr>" "[]" "U ''abc''"]
      1
    by simp
qed

text \<open>
  Claim C6 as stated fails: a callback whose state differs from the generated one and that
  carries \<open>error=access_denied\<close> does not fail with the state-mismatch error but with
  the provider error, because the \<open>error\<close> parameter is checked first.
\<close>

theorem authenticate_state_mismatch_counterexample:
  "cb_state (the (arrival denied_env)) \<noteq> Some (new_state denied_env)
   \<and> fst (authenticate denied_env) \<noteq> Inl (Exception (U ''State mismatch. Possible tampering.''))
   \<and> fst (authenticate denied_env) = Inl (Exception (U ''Auth error: access_denied''))"
  by (simp add: denied_env_def authenticate_def authenticate_body_def check_callback_def)

section \<open>Properties of the paginated listing\<close>

lemma parse_entry_acc:
  "parse_entry rt item (fo, fi) = (case parse_entry rt item ([], []) of
       Inl e \<Rightarrow> Inl e | Inr (a, b) \<Rightarrow> Inr (fo @ a, fi @ b))"
  by (auto simp: parse_entry_def ebind_def split: sum.splits)

lemma parse_entries_acc:
  "parse_entries rt items (fo, fi) = (case parse_entries rt items ([], []) of
       Inl e \<Rightarrow> Inl e | Inr (a, b) \<Rightarrow> Inr (fo @ a, fi @ b))"
proof (induction items arbitrary: fo fi)
  case Nil
  show ?case by simp
next
  case (Cons item rest)
  show ?case
  proof (cases "parse_entry rt item ([], [])")
    case (Inl e)
    then show ?thesis by (simp add: parse_entry_acc[of rt item fo fi])
  next
    case (Inr ab)
    obtain a b where ab: "ab = (a, b)" by (cases ab)
    have 1: "parse_entries rt (item # rest) (fo, fi) = parse_entries rt rest (fo @ a, fi @ b)"
      using Inr ab by (simp add: parse_entry_acc[of rt item fo fi])
    have 2: "parse_entries rt (item # rest) ([], []) = parse_entries rt rest (a, b)"
      using Inr ab by simp
    show ?thesis unfolding 1 2
      by (subst Cons.IH[of "fo @ a" "fi @ b"], subst Cons.IH[of a b]) (auto split: sum.splits)
  qed
qed

lemma parse_folder_contents_acc:
  "parse_folder_contents rt root fo fi = (case parse_folder_contents rt root [] [] of
       Inl e \<Rightarrow> Inl e | Inr (a, b) \<Rightarrow> Inr (fo @ a, fi @ b))"
  unfolding parse_folder_contents_def ebind_def
  by (subst parse_entries_acc) (auto split: sum.splits)

lemma files_loop_chain:
  "page_chain rt http_get url pages \<Longrightarrow>
   files_loop rt http_get url (fo, fi) fetched
     = Some (Inr (fi @ concat (map (\<lambda>p. snd (snd p)) pages)),
             fetched @ map fst pages)"
proof (induction pages arbitrary: url fo fi fetched)
  case Nil
  then show ?case by (subst files_loop.simps) simp
next
  case (Cons page pages)
  obtain u root files where page: "page = (u, root, files)" by (cases page)
  from Cons.prems page have u: "u = url" and t: "truthy url"
    and g: "get_root rt http_get url = Inr root"
    and ch: "page_chain rt http_get (get_next_link root) pages"
    by simp_all
  from Cons.prems page obtain nfo where p0: "parse_folder_contents rt root [] [] = Inr (nfo, files)"
    by (auto split: sum.splits)
  have p: "parse_folder_contents rt root fo fi = Inr (fo @ nfo, fi @ files)"
    by (subst parse_folder_contents_acc) (simp add: p0)
  have "files_loop rt http_get url (fo, fi) fetched
      = files_loop rt http_get (get_next_link root) (fo @ nfo, fi @ files) (fetched @ [url])"
    by (subst files_loop.simps) (simp add: t g p)
  also have "\<dots> = Some (Inr ((fi @ files) @ concat (map (\<lambda>p. snd (snd p)) pages)),
             (fetched @ [url]) @ map fst pages)"
    by (rule Cons.IH[OF ch])
  finally show ?case by (simp add: page u)
qed

lemma page_chain_unique:
  "page_chain rt http_get url pages \<Longrightarrow> page_chain rt http_get url pages' \<Longrightarrow> pages = pages'"
proof (induction pages arbitrary: url pages')
  case Nil
  then show ?case by (cases pages') auto
next
  case (Cons page pages)
  obtain u root files where page: "page = (u, root, files)" by (cases page)
  from Cons.prems(1) page have t: "truthy url" by simp
  with Cons.prems(2) obtain page' rest where p': "pages' = page' # rest" by (cases pages') auto
  obtain u' root' files' where page': "page' = (u', root', files')" by (cases page')
  from Cons.prems page p' page' have "u = u'" "root = root'" "files = files'"
    by (auto split: sum.splits)
  moreover from Cons.prems page p' page' have "pages = rest"
    by (intro Cons.IH[of "get_next_link root" rest]) auto
  ultimately show ?case by (simp add: page p' page')
qed

lemma page_chain_drop:
  "page_chain rt http_get url pages \<Longrightarrow> i < length pages \<Longrightarrow>
   page_chain rt http_get (fst (pages ! i)) (drop i pages)"
proof (induction pages arbitrary: url i)
  case Nil
  then show ?case by simp
next
  case (Cons page pages)
  obtain u root files where page: "page = (u, root, files)" by (cases page)
  show ?case
  proof (cases i)
    case 0
    with Cons.prems page show ?thesis by simp
  next
    case (Suc k)
    with Cons.prems page show ?thesis by (auto intro: Cons.IH)
  qed
qed

lemma page_chain_distinct:
  assumes "page_chain rt http_get url pages"
  shows "distinct (map fst pages)"
proof -
  have "fst (pages ! i) \<noteq> fst (pages ! j)" if "i < j" "j < length pages" for i j
  proof
    assume e: "fst (pages ! i) = fst (pages ! j)"
    from that have i: "i < length pages" by simp
    have "page_chain rt http_get (fst (pages ! i)) (drop i pages)"
      using assms i by (rule page_chain_drop)
    moreover have "page_chain rt http_get (fst (pages ! i)) (drop j pages)"
      unfolding e using assms that(2) by (rule page_chain_drop)
    ultimately have "drop i pages = drop j pages" by (rule page_chain_unique)
    then have "length (drop i pages) = length (drop j pages)" by simp
    with that show False by simp
  qed
  then have "\<And>i j. i < length pages \<Longrightarrow> j < length pages \<Longrightarrow> i \<noteq> j \<Longrightarrow> fst (pages ! i) \<noteq> fst (pages ! j)"
    by (metis linorder_neqE_nat)
  then show ?thesis by (simp add: distinct_conv_nth)
qed

lemma page_chain_next:
  "page_chain rt http_get url pages \<Longrightarrow> i < length pages \<Longrightarrow>
   truthy (get_next_link (fst (snd (pages ! i)))) \<longleftrightarrow> Suc i < length pages"
proof (induction pages arbitrary: url i)
  case Nil
  then show ?case by simp
next
  case (Cons page pages)
  obtain u root files where page: "page = (u, root, files)" by (cases page)
  from Cons.prems page have ch: "page_chain rt http_get (get_next_link root) pages" by simp
  show ?case
  proof (cases i)
    case 0
    show ?thesis
    proof (cases pages)
      case Nil
      with ch 0 page show ?thesis by simp
    next
      case (Cons q qs)
      with ch 0 page show ?thesis by (cases q) auto
    qed
  next
    case (Suc k)
    with Cons.prems have "k < length pages" by simp
    from Cons.IH[OF ch this] Suc show ?thesis by simp
  qed
qed

lemma page_chain_link:
  "page_chain rt http_get url pages \<Longrightarrow> Suc i < length pages \<Longrightarrow>
   fst (pages ! Suc i) = get_next_link (fst (snd (pages ! i)))"
proof (induction pages arbitrary: url i)
  case Nil
  then show ?case by simp
next
  case (Cons page pages)
  obtain u root files where page: "page = (u, root, files)" by (cases page)
  from Cons.prems page have ch: "page_chain rt http_get (get_next_link root) pages" by simp
  show ?case
  proof (cases i)
    case 0
    with Cons.prems obtain q qs where q: "pages = q # qs" by (cases pages) auto
    with ch 0 page show ?thesis by (cases q) auto
  next
    case (Suc k)
    with Cons.prems have "Suc k < length pages" by simp
    from Cons.IH[OF ch this] Suc show ?thesis by simp
  qed
qed

text \<open>
  Claim C7. For a listing of any number of pages, chained by their \<open>next\<close> links from the
  first URL and ending at the first envelope without a usable \<open>next\<close> link: the loop
  ends, it returns the file entries of all pages concatenated in page order, it requests
  exactly the URLs of the pages, in order, each once, every URL after the first is the
  \<open>next\<close> link of the page before, and an envelope has a usable \<open>next\<close> link exactly
  when it is not the last page.
\<close>

theorem get_files_in_folder_follows_next_links:
  assumes "page_chain rt http_get (PStr (contents_url escape project_id folder_id)) pages"
  shows "get_files_in_folder rt http_get escape project_id folder_id
           = Some (Inr (concat (map (\<lambda>p. snd (snd p)) pages)), map fst pages)
       \<and> distinct (map fst pages)
       \<and> (\<forall>i. Suc i < length pages \<longrightarrow> fst (pages ! Suc i) = get_next_link (fst (snd (pages ! i))))
       \<and> (\<forall>i < length pages. truthy (get_next_link (fst (snd (pages ! i)))) \<longleftrightarrow> Suc i < length pages)"
proof -
  have 1: "get_files_in_folder rt http_get escape project_id folder_id
           = Some (Inr (concat (map (\<lambda>p. snd (snd p)) pages)), map fst pages)"
    unfolding get_files_in_folder_def using files_loop_chain[OF assms, of "[]" "[]" "[]"] by simp
  have 2: "distinct (map fst pages)" using assms by (rule page_chain_distinct)
  have 3: "\<forall>i. Suc i < length pages \<longrightarrow> fst (pages ! Suc i) = get_next_link (fst (snd (pages ! i)))"
    using page_chain_link[OF assms] by blast
  have 4: "\<forall>i < length pages. truthy (get_next_link (fst (snd (pages ! i)))) \<longleftrightarrow> Suc i < length pages"
    using page_chain_next[OF assms] by blast
  from 1 2 3 4 show ?thesis by blast
qed

lemma three_root1: "get_root three_pages_rt three_pages_get first_url = Inr (page_json ''a.dwg'' ''u2'')"
  by (simp add: get_root_def ebind_def three_pages_get_def three_pages_rt_def ascii_rt_def)

lemma three_root2: "get_root three_pages_rt three_pages_get (PStr (U ''u2'')) = Inr (page_json ''b.dwg'' ''u3'')"
  by (simp add: get_root_def ebind_def three_pages_get_def three_pages_rt_def ascii_rt_def first_url_def contents_url_def)

lemma three_root3: "get_root three_pages_rt three_pages_get (PStr (U ''u3'')) = Inr (last_page_json ''c.dwg'')"
  by (simp add: get_root_def ebind_def three_pages_get_def three_pages_rt_def ascii_rt_def first_url_def contents_url_def)

lemma page_json_next: "get_next_link (page_json name href) = PStr (U href)"
  by (simp add: get_next_link_def dict_or_empty_def page_json_def)

lemma last_page_json_next: "get_next_link (last_page_json name) = PNone"
  by (simp add: get_next_link_def dict_or_empty_def last_page_json_def)

lemma parse_entry_json:
  "parse_entry rt (entry_json name) ([], []) = Inr ([], [listed_item name])"
  by (simp add: entry_json_def listed_item_def parse_entry_def ebind_def py_get_def lower_method_def
      py_lower_def is_ascii_def ascii_lower_def)

lemma page_json_files:
  "parse_folder_contents rt (page_json name href) [] [] = Inr ([], [listed_item name])"
  by (simp add: parse_folder_contents_def page_json_def ebind_def py_get_def py_iter_def
      parse_entry_json)

lemma last_page_json_files:
  "parse_folder_contents rt (last_page_json name) [] [] = Inr ([], [listed_item name])"
  by (simp add: parse_folder_contents_def last_page_json_def ebind_def py_get_def py_iter_def
      parse_entry_json)

lemma three_chain:
  "page_chain three_pages_rt three_pages_get first_url
     [(first_url, page_json ''a.dwg'' ''u2'', [listed_item ''a.dwg'']),
      (PStr (U ''u2''), page_json ''b.dwg'' ''u3'', [listed_item ''b.dwg'']),
      (PStr (U ''u3''), last_page_json ''c.dwg'', [listed_item ''c.dwg''])]"
proof -
  have t1: "truthy first_url" by (simp add: first_url_def contents_url_def truthy_def)
  have t2: "truthy (PStr (U ''u2''))" "truthy (PStr (U ''u3''))" "\<not> truthy PNone"
    by (simp_all add: truthy_def)
  show ?thesis
    unfolding page_chain.simps three_root1 three_root2 three_root3 page_json_next
      last_page_json_next page_json_files last_page_json_files
    using t1 t2 by simp
qed

text \<open>
  Claim C7 on the listing of three pages: the three entries come back in page order and
  the three URLs are requested once each.
\<close>

theorem get_files_in_folder_follows_next_links_witness:
  "get_files_in_folder three_pages_rt three_pages_get (\<lambda>x. x) (U ''p'') (U ''f'')
     = Some (Inr [listed_item ''a.dwg'', listed_item ''b.dwg'', listed_item ''c.dwg''],
             [first_url, PStr (U ''u2''), PStr (U ''u3'')])"
  using get_files_in_folder_follows_next_links[OF three_chain[unfolded first_url_def],
      THEN conjunct1]
  by (simp add: first_url_def)

section \<open>Properties of the reconciliation pass\<close>

lemma update_item_effect:
  "update_item rt rem project_id row st file_item
     = apply_effect st (update_effect rt rem project_id row (calls st) file_item)"
proof (cases "fetch_detail rt rem (calls st) project_id (Id file_item)")
  case (Inl ex)
  then show ?thesis
    by (simp add: update_item_def update_effect_def apply_effect_def Let_def truthy_def)
next
  case (Inr r)
  obtain e d t where r: "r = (e, d, t)" by (cases r)
  show ?thesis
  proof (cases "version_update rem (calls st @ [GetItemDetail project_id (Id file_item)])
                  project_id t (excel_row.Description row)")
    case None
    with Inr r show ?thesis
      by (simp add: update_item_def update_effect_def apply_effect_def Let_def)
  next
    case (Some ex)
    with Inr r show ?thesis
      by (simp add: update_item_def update_effect_def apply_effect_def Let_def)
  qed
qed

lemma process_item_effect:
  "process_item rt rem project_id excel_rows st file_item
     = apply_effect st (item_effect rt rem project_id excel_rows (calls st) file_item)"
proof (cases "truthy (Id file_item)")
  case False
  then show ?thesis by (simp add: process_item_def item_effect_def apply_effect_def)
next
  case True
  show ?thesis
  proof (cases "lookup_row rt excel_rows file_item")
    case None
    with True show ?thesis by (simp add: process_item_def item_effect_def apply_effect_def)
  next
    case (Some row)
    show ?thesis
    proof (cases "excel_row.Description row = []")
      case e: True
      with True Some show ?thesis by (simp add: process_item_def item_effect_def apply_effect_def)
    next
      case e: False
      with True Some show ?thesis
        by (simp add: process_item_def item_effect_def update_item_effect)
    qed
  qed
qed

lemma process_items_append:
  "process_items rt rem project_id excel_rows (xs @ ys) st
     = process_items rt rem project_id excel_rows ys (process_items rt rem project_id excel_rows xs st)"
  by (induction xs arbitrary: st) simp_all

lemma update_effect_account:
  "update_effect rt rem project_id row cs file_item = (du, ds, dl, dc, out) \<Longrightarrow>
   ds + length (filter is_update dc) = 1 \<and> du \<le> length (filter is_update dc)"
  by (auto simp: update_effect_def Let_def split: if_splits option.splits)

lemma item_effect_account:
  "item_effect rt rem project_id excel_rows cs file_item = (du, ds, dl, dc, out) \<Longrightarrow>
   ds + length (filter is_update dc) = 1 \<and> du \<le> length (filter is_update dc)"
  unfolding item_effect_def Let_def
  by (auto split: if_splits option.splits dest: update_effect_account)



lemma process_item_skipped_no_update:
  assumes "skipped (process_item rt rem project_id excel_rows st file_item) = skipped st + 1"
  shows "filter is_update (calls (process_item rt rem project_id excel_rows st file_item))
     = filter is_update (calls st)"
proof -
  obtain du ds dl dc out where e: "item_effect rt rem project_id excel_rows (calls st) file_item = (du, ds, dl, dc, out)"
    by (metis prod_cases5)
  from assms have "ds = 1" by (simp add: process_item_effect e apply_effect_def)
  with item_effect_account[OF e] have "filter is_update dc = []" by simp
  then show ?thesis by (simp add: process_item_effect e apply_effect_def)
qed


text \<open>
  Claim C1. In every round of the pass, whatever the state reached: an item whose id is
  false in a condition (empty) is counted as skipped with the missing-id line; otherwise
  its row is the one under \<open>normalize\<close> of the display name, and only when there is none
  the one under \<open>normalize_base\<close>; without a row the item is skipped with the no-row
  line; with a row whose description is empty it is skipped with the empty-description
  line; in these three cases nothing else changes, so no call is made; and a round that
  counts its item as skipped, for any reason, makes no update call. The rounds follow each
  other in the order of the file list.
\<close>

theorem reconcile_skip_rules:
  "(\<not> truthy (Id file_item) \<longrightarrow>
      process_item rt rem project_id excel_rows st file_item
        = st\<lparr> skipped := skipped st + 1,
              log := log st @ [LogSkippedMissingId (DisplayName file_item, ExtensionType file_item)],
              done_items := done_items st @ [file_item] \<rparr>)
   \<and> lookup_row rt excel_rows file_item
        = (case dict_get excel_rows (normalize_name rt (DisplayName file_item)) of
              Some r \<Rightarrow> Some r
            | None \<Rightarrow> dict_get excel_rows (normalize_base rt (DisplayName file_item)))
   \<and> (truthy (Id file_item) \<and> lookup_row rt excel_rows file_item = None \<longrightarrow>
      process_item rt rem project_id excel_rows st file_item
        = st\<lparr> skipped := skipped st + 1,
              log := log st @ [LogSkippedNoRow (DisplayName file_item, ExtensionType file_item)
                        (normalize_name rt (DisplayName file_item))
                        (normalize_base rt (DisplayName file_item))],
              done_items := done_items st @ [file_item] \<rparr>)
   \<and> (truthy (Id file_item) \<and> lookup_row rt excel_rows file_item = Some row
        \<and> excel_row.Description row = [] \<longrightarrow>
      process_item rt rem project_id excel_rows st file_item
        = st\<lparr> skipped := skipped st + 1,
              log := log st @ [LogSkippedEmptyDescription (DisplayName file_item, ExtensionType file_item)
                        (FileName row)],
              done_items := done_items st @ [file_item] \<rparr>)
   \<and> (skipped (process_item rt rem project_id excel_rows st file_item) = skipped st + 1 \<longrightarrow>
        filter is_update (calls (process_item rt rem project_id excel_rows st file_item))
          = filter is_update (calls st))
   \<and> process_items rt rem project_id excel_rows (before @ file_item # after) st
        = process_items rt rem project_id excel_rows after
            (process_item rt rem project_id excel_rows
               (process_items rt rem project_id excel_rows before st) file_item)"
proof (intro conjI impI)
  assume "\<not> truthy (Id file_item)"
  then show "process_item rt rem project_id excel_rows st file_item
        = st\<lparr> skipped := skipped st + 1,
              log := log st @ [LogSkippedMissingId (DisplayName file_item, ExtensionType file_item)],
              done_items := done_items st @ [file_item] \<rparr>"
    by (simp add: process_item_def)
next
  show "lookup_row rt excel_rows file_item
        = (case dict_get excel_rows (normalize_name rt (DisplayName file_item)) of
              Some r \<Rightarrow> Some r
            | None \<Rightarrow> dict_get excel_rows (normalize_base rt (DisplayName file_item)))"
    by (simp add: lookup_row_def Let_def split: option.splits)
next
  assume "truthy (Id file_item) \<and> lookup_row rt excel_rows file_item = None"
  then show "process_item rt rem project_id excel_rows st file_item
        = st\<lparr> skipped := skipped st + 1,
              log := log st @ [LogSkippedNoRow (DisplayName file_item, ExtensionType file_item)
                        (normalize_name rt (DisplayName file_item))
                        (normalize_base rt (DisplayName file_item))],
              done_items := done_items st @ [file_item] \<rparr>"
    by (simp add: process_item_def)
next
  assume "truthy (Id file_item) \<and> lookup_row rt excel_rows file_item = Some row
        \<and> excel_row.Description row = []"
  then show "process_item rt rem project_id excel_rows st file_item
        = st\<lparr> skipped := skipped st + 1,
              log := log st @ [LogSkippedEmptyDescription (DisplayName file_item, ExtensionType file_item)
                        (FileName row)],
              done_items := done_items st @ [file_item] \<rparr>"
    by (simp add: process_item_def)
next
  assume "skipped (process_item rt rem project_id excel_rows st file_item) = skipped st + 1"
  then show "filter is_update (calls (process_item rt rem project_id excel_rows st file_item))
          = filter is_update (calls st)"
    by (rule process_item_skipped_no_update)
next
  show "process_items rt rem project_id excel_rows (before @ file_item # after) st
        = process_items rt rem project_id excel_rows after
            (process_item rt rem project_id excel_rows
               (process_items rt rem project_id excel_rows before st) file_item)"
    by (simp add: process_items_append)
qed





lemma key_other: "normalize_name rt (PStr (U ''Other.dwg'')) = U ''other.dwg''"
  by (simp add: nsimps)

lemma base_other: "normalize_base rt (PStr (U ''Other.dwg'')) = U ''other''"
  by (simp add: nsimps)

lemma key_notes: "normalize_name rt (PStr (U ''notes.txt'')) = U ''notes.txt''"
  by (simp add: nsimps)



lemma lookup_other: "lookup_row rt sync_rows (item_named iid ''Other.dwg'' ext) = None"
  using key_other[of rt] base_other[of rt]
  by (simp add: lookup_row_def item_named_def dict_get_def sync_rows_def)

lemma lookup_notes: "lookup_row rt sync_rows (item_named iid ''notes.txt'' ext) = Some row_notes"
  using key_notes[of rt] by (simp add: lookup_row_def item_named_def dict_get_def sync_rows_def)




text \<open>
  Claim C1 on an item without id, an item without row and an item whose row has no
  description, each as the first item of a pass.
\<close>

theorem reconcile_skip_rules_witness:
  "process_item sync_rt good_remote (PStr (U ''b.1'')) sync_rows pass_init (item_named [] ''Plan-A1.dwg'' ''f'')
     = pass_init\<lparr> skipped := 1, log := [LogSkippedMissingId (PStr (U ''Plan-A1.dwg''), PStr (U ''f''))],
         done_items := [item_named [] ''Plan-A1.dwg'' ''f''] \<rparr>
   \<and> process_item sync_rt good_remote (PStr (U ''b.1'')) sync_rows pass_init (item_named ''i2'' ''Other.dwg'' ''f'')
     = pass_init\<lparr> skipped := 1,
         log := [LogSkippedNoRow (PStr (U ''Other.dwg''), PStr (U ''f'')) (U ''other.dwg'') (U ''other'')],
         done_items := [item_named ''i2'' ''Other.dwg'' ''f''] \<rparr>
   \<and> process_item sync_rt good_remote (PStr (U ''b.1'')) sync_rows pass_init (item_named ''i3'' ''notes.txt'' ''f'')
     = pass_init\<lparr> skipped := 1,
         log := [LogSkippedEmptyDescription (PStr (U ''notes.txt''), PStr (U ''f'')) (U ''notes.txt'')],
         done_items := [item_named ''i3'' ''notes.txt'' ''f''] \<rparr>"
proof -
  let ?p = "PStr (U ''b.1'')"
  have a: "\<not> truthy (Id (item_named [] ''Plan-A1.dwg'' ''f''))"
    by (simp add: item_named_def truthy_def)
  have b: "truthy (Id (item_named ''i2'' ''Other.dwg'' ''f''))
      \<and> lookup_row sync_rt sync_rows (item_named ''i2'' ''Other.dwg'' ''f'') = None"
    by (simp add: lookup_other) (simp add: item_named_def truthy_def)
  have c: "truthy (Id (item_named ''i3'' ''notes.txt'' ''f''))
      \<and> lookup_row sync_rt sync_rows (item_named ''i3'' ''notes.txt'' ''f'') = Some row_notes
      \<and> excel_row.Description row_notes = []"
    by (simp add: lookup_notes) (simp add: item_named_def truthy_def row_notes_def)
  have 1: "process_item sync_rt good_remote ?p sync_rows pass_init (item_named [] ''Plan-A1.dwg'' ''f'')
     = pass_init\<lparr> skipped := skipped pass_init + 1,
         log := log pass_init @ [LogSkippedMissingId (DisplayName (item_named [] ''Plan-A1.dwg'' ''f''),
                                   ExtensionType (item_named [] ''Plan-A1.dwg'' ''f''))],
         done_items := done_items pass_init @ [item_named [] ''Plan-A1.dwg'' ''f''] \<rparr>"
    using reconcile_skip_rules[where file_item = "item_named [] ''Plan-A1.dwg'' ''f''" and rt = sync_rt
        and rem = good_remote and project_id = ?p and excel_rows = sync_rows and st = pass_init,
        THEN conjunct1] a
    by (rule mp)
  have 2: "process_item sync_rt good_remote ?p sync_rows pass_init (item_named ''i2'' ''Other.dwg'' ''f'')
     = pass_init\<lparr> skipped := skipped pass_init + 1,
         log := log pass_init @ [LogSkippedNoRow (DisplayName (item_named ''i2'' ''Other.dwg'' ''f''),
                                   ExtensionType (item_named ''i2'' ''Other.dwg'' ''f''))
                         (normalize_name sync_rt (DisplayName (item_named ''i2'' ''Other.dwg'' ''f'')))
                         (normalize_base sync_rt (DisplayName (item_named ''i2'' ''Other.dwg'' ''f'')))],
         done_items := done_items pass_init @ [item_named ''i2'' ''Other.dwg'' ''f''] \<rparr>"
    using reconcile_skip_rules[where file_item = "item_named ''i2'' ''Other.dwg'' ''f''" and rt = sync_rt
        and rem = good_remote and project_id = ?p and excel_rows = sync_rows and st = pass_init,
        THEN conjunct2, THEN conjunct2, THEN conjunct1] b
    by (rule mp)
  have 3: "process_item sync_rt good_remote ?p sync_rows pass_init (item_named ''i3'' ''notes.txt'' ''f'')
     = pass_init\<lparr> skipped := skipped pass_init + 1,
         log := log pass_init @ [LogSkippedEmptyDescription (DisplayName (item_named ''i3'' ''notes.txt'' ''f''),
                                   ExtensionType (item_named ''i3'' ''notes.txt'' ''f'')) (FileName row_notes)],
         done_items := done_items pass_init @ [item_named ''i3'' ''notes.txt'' ''f''] \<rparr>"
    using reconcile_skip_rules[where file_item = "item_named ''i3'' ''notes.txt'' ''f''" and rt = sync_rt
        and rem = good_remote and project_id = ?p and excel_rows = sync_rows and st = pass_init
        and row = row_notes,
        THEN conjunct2, THEN conjunct2, THEN conjunct2, THEN conjunct1] c
    by (rule mp)
  have n: "normalize_name sync_rt (DisplayName (item_named ''i2'' ''Other.dwg'' ''f'')) = U ''other.dwg''"
      "normalize_base sync_rt (DisplayName (item_named ''i2'' ''Other.dwg'' ''f'')) = U ''other''"
    using key_other[of sync_rt] base_other[of sync_rt] by (simp_all add: item_named_def)
  show ?thesis unfolding 1 2 3 n
    by (simp add: pass_init_def item_named_def row_notes_def)
qed













end
